theory Spec2Isabelle
  imports Main "HOL-Library.Word"
begin

unbundle bit_operations_syntax

section \<open>CF10B tool: serial frame builder (cf10b\_tool/engine.c)\<close>

text \<open>
  C integer types are words of their width: \<open>uint8_t\<close> is \<open>8 word\<close>, \<open>uint16_t\<close> is
  \<open>16 word\<close>, \<open>uint32_t\<close> is \<open>32 word\<close>. Where C promotes operands to \<open>int\<close> before an
  operation, the model computes on \<open>int\<close> (through \<open>uint\<close>) and the cast back to the
  narrow type is \<open>word_of_int\<close>.
\<close>

type_synonym u8 = "8 word"
type_synonym u16 = "16 word"
type_synonym u32 = "32 word"

text \<open>
  \<open>engine_cf10b_checksum\<close>: \<open>sum = (uint8_t)(id + cmd + lsb + msb)\<close>, then
  \<open>ck = (uint8_t)(0x100 - (sum & 0xFF))\<close>. Both right-hand sides are evaluated in \<open>int\<close>.
\<close>

definition engine_cf10b_checksum :: "u8 \<Rightarrow> u8 \<Rightarrow> u8 \<Rightarrow> u8 \<Rightarrow> u8" where
  "engine_cf10b_checksum idb cmd lsb msb =
     (let sum = (word_of_int (uint idb + uint cmd + uint lsb + uint msb) :: u8);
          ck = (word_of_int (0x100 - uint (sum AND 0xFF)) :: u8)
      in ck)"

text \<open>
  \<open>engine_cf10b_build_set_speed\<close> writes \<open>out5[0..4]\<close> and returns the length. The model
  returns the length together with the five bytes written, in index order.
\<close>

definition engine_cf10b_build_set_speed :: "u16 \<Rightarrow> u8 \<times> u8 list" where
  "engine_cf10b_build_set_speed rpm0 =
     (let rpm = (if rpm0 > 4500 then 4500 else rpm0);
          idb = (0xA5 :: u8);
          cmd = (0xC3 :: u8);
          lsb = (ucast (rpm AND 0xFF) :: u8);
          msb = (ucast (drop_bit 8 rpm AND 0xFF) :: u8);
          ck = engine_cf10b_checksum idb cmd lsb msb
      in (5, [idb, cmd, lsb, msb, ck]))"

section \<open>CF10B tool: profiles (profile.h, profile.c)\<close>

datatype ModelKind = MODEL_FREQUENCY | MODEL_SERIAL | MODEL_DROPIN

text \<open>A \<open>const GpioPin*\<close> is a pin identity or \<open>NULL\<close>; pins are numbered as in \<open>kPins\<close>.\<close>

type_synonym GpioPin = nat

record GpioProfile =
  prof_name :: string
  kind :: ModelKind
  out0 :: "GpioPin option"
  in0 :: "GpioPin option"
  out_active_high :: bool
  debounce_ms :: u16
  pwm_freq_hz :: u16
  pwm_duty_pc :: u8
  boot_all_off :: bool
  interlock_in0_blocks_out0 :: bool
  version :: u16

text \<open>
  \<open>ProfileRuntime\<close>: \<open>active\<close> points into \<open>profiles[]\<close>, so the pointer is the index of the
  element it points to.
\<close>

record ProfileRuntime =
  active_ptr :: nat
  active_index :: u8
  locked :: bool

definition profiles :: "GpioProfile list" where
  "profiles =
     [\<lparr>prof_name = ''FREQUENCY'', kind = MODEL_FREQUENCY, out0 = None, in0 = None,
       out_active_high = True, debounce_ms = 20, pwm_freq_hz = 150, pwm_duty_pc = 50,
       boot_all_off = True, interlock_in0_blocks_out0 = True, version = 1\<rparr>,
      \<lparr>prof_name = ''SERIAL'', kind = MODEL_SERIAL, out0 = None, in0 = None,
       out_active_high = True, debounce_ms = 20, pwm_freq_hz = 0, pwm_duty_pc = 0,
       boot_all_off = True, interlock_in0_blocks_out0 = False, version = 1\<rparr>,
      \<lparr>prof_name = ''DROPIN'', kind = MODEL_DROPIN, out0 = None, in0 = None,
       out_active_high = True, debounce_ms = 20, pwm_freq_hz = 0, pwm_duty_pc = 0,
       boot_all_off = True, interlock_in0_blocks_out0 = False, version = 1\<rparr>]"

definition profile_count :: u8 where
  "profile_count = of_nat (length profiles)"

definition profile_set_active :: "ProfileRuntime \<Rightarrow> u8 \<Rightarrow> ProfileRuntime" where
  "profile_set_active g_rt idx =
     (if idx \<ge> profile_count then g_rt
      else g_rt\<lparr>active_index := idx, active_ptr := unat idx\<rparr>)"

section \<open>CF10B tool: engine tick (engine.h, engine.c)\<close>












section \<open>Embraco Starter: platform (src/embraco\_starter.c and its inverter-select variant)\<close>

text \<open>
  The repository holds two variants of the application with timers: the three-screen
  one in \<open>src/embraco_starter.c\<close> and the inverter-select one (a second source file
  defining \<open>embraco_starter\<close>, with the screens SelectInverter, Menu, Help, Settings and
  the \<open>powered\<close> flag). Functions that are the same text in both are defined once; where
  the inverter-select variant differs, its definition carries the suffix \<open>_p1\<close>.
  A third, older variant without timers and settings is not modelled.
\<close>

subsection \<open>Hardware and timer service\<close>

datatype GpioMode = GpioModeInput | GpioModeOutputPushPull

datatype LedSeq = sequence_set_green_255 | sequence_reset_rgb

datatype FuriTimerType = FuriTimerTypeOnce | FuriTimerTypePeriodic

datatype TimerCb = LedTimerCb | HintTimerCb | TickTimerCb | OffTimerCb

text \<open>Every call the application makes on the pin, the PWM channel, the LED and the timers.\<close>

datatype Cmd =
    PwmStop
  | DelayMs nat
  | PwmStart u32 u8
  | GpioInit GpioMode
  | GpioWrite bool
  | Notify LedSeq
  | TimerAlloc TimerCb FuriTimerType
  | TimerStart TimerCb u32
  | TimerStop TimerCb
  | TimerFree TimerCb

text \<open>
  Modelled from the spec: the hardware capability interface of section 6
  (\<open>gpio_set_hiz\<close>, \<open>gpio_set_push_pull_low\<close>, \<open>pwm_start\<close>, \<open>pwm_stop\<close>,
  \<open>led_indicator_set\<close>, the timer primitives); the Flipper HAL itself is not in the
  repository. \<open>pin_mode\<close> is the last GPIO configuration of PA7, \<open>pin_level\<close> its output
  latch, \<open>pwm_gen\<close> the running PWM generator (frequency, duty) if any, \<open>led_green\<close> the
  indicator, \<open>trace\<close> the calls in the order they were made.
\<close>

record Platform =
  pin_mode :: GpioMode
  pin_level :: bool
  pwm_gen :: "(u32 \<times> u8) option"
  led_green :: bool
  trace :: "Cmd list"

definition emit :: "Cmd \<Rightarrow> Platform \<Rightarrow> Platform" where
  "emit c pl = pl\<lparr>trace := trace pl @ [c]\<rparr>"

definition furi_hal_gpio_init :: "GpioMode \<Rightarrow> Platform \<Rightarrow> Platform" where
  "furi_hal_gpio_init m pl = emit (GpioInit m) (pl\<lparr>pin_mode := m\<rparr>)"

definition furi_hal_gpio_write :: "bool \<Rightarrow> Platform \<Rightarrow> Platform" where
  "furi_hal_gpio_write lvl pl = emit (GpioWrite lvl) (pl\<lparr>pin_level := lvl\<rparr>)"

definition furi_hal_pwm_start :: "u32 \<Rightarrow> u8 \<Rightarrow> Platform \<Rightarrow> Platform" where
  "furi_hal_pwm_start freq duty pl = emit (PwmStart freq duty) (pl\<lparr>pwm_gen := Some (freq, duty)\<rparr>)"

definition furi_hal_pwm_stop :: "Platform \<Rightarrow> Platform" where
  "furi_hal_pwm_stop pl = emit PwmStop (pl\<lparr>pwm_gen := None\<rparr>)"

definition furi_delay_ms :: "nat \<Rightarrow> Platform \<Rightarrow> Platform" where
  "furi_delay_ms n pl = emit (DelayMs n) pl"

definition notification_message :: "LedSeq \<Rightarrow> Platform \<Rightarrow> Platform" where
  "notification_message q pl = emit (Notify q) (pl\<lparr>led_green := (q = sequence_set_green_255)\<rparr>)"

text \<open>
  A \<open>FuriTimer*\<close> is \<open>NULL\<close> (\<open>None\<close>) or the timer object it owns; no two handles of
  the application share an object. \<open>t_ticks\<close> is the duration given to the last
  \<open>furi_timer_start\<close>, in milliseconds (\<open>furi_ms_to_ticks\<close> at the 1 kHz kernel tick).
\<close>

record FuriTimer =
  t_cb :: TimerCb
  t_type :: FuriTimerType
  t_running :: bool
  t_ticks :: u32

definition furi_timer_alloc :: "TimerCb \<Rightarrow> FuriTimerType \<Rightarrow> FuriTimer" where
  "furi_timer_alloc cb ty = \<lparr>t_cb = cb, t_type = ty, t_running = False, t_ticks = 0\<rparr>"

definition furi_timer_start :: "FuriTimer \<Rightarrow> u32 \<Rightarrow> FuriTimer" where
  "furi_timer_start t ms = t\<lparr>t_running := True, t_ticks := ms\<rparr>"

definition furi_timer_stop :: "FuriTimer \<Rightarrow> FuriTimer" where
  "furi_timer_stop t = t\<lparr>t_running := False\<rparr>"

text \<open>
  Modelled from the spec: section 4.2's one-shot timer "fires once", the periodic one
  keeps running. \<open>after_fire\<close> is the timer object once its callback has been called.
\<close>

definition after_fire :: "FuriTimer \<Rightarrow> FuriTimer" where
  "after_fire t = (if t_type t = FuriTimerTypeOnce then t\<lparr>t_running := False\<rparr> else t)"

subsection \<open>Modes\<close>

record Mode =
  name :: string
  freq_hz :: u32
  led_blink_hz :: u8
  default_secs :: u32

definition kModes :: "Mode list" where
  "kModes =
     [\<lparr>name = ''Power off'', freq_hz = 0, led_blink_hz = 0, default_secs = 0\<rparr>,
      \<lparr>name = ''Low speed'', freq_hz = 55, led_blink_hz = 1, default_secs = 120\<rparr>,
      \<lparr>name = ''Mid speed'', freq_hz = 100, led_blink_hz = 2, default_secs = 60\<rparr>,
      \<lparr>name = ''Max speed'', freq_hz = 160, led_blink_hz = 4, default_secs = 30\<rparr>]"

definition kModes_p1 :: "Mode list" where
  "kModes_p1 =
     [\<lparr>name = ''Stand by'', freq_hz = 0, led_blink_hz = 0, default_secs = 0\<rparr>,
      \<lparr>name = ''Low speed'', freq_hz = 55, led_blink_hz = 1, default_secs = 120\<rparr>,
      \<lparr>name = ''Mid speed'', freq_hz = 100, led_blink_hz = 2, default_secs = 60\<rparr>,
      \<lparr>name = ''Max speed'', freq_hz = 160, led_blink_hz = 4, default_secs = 30\<rparr>]"

text \<open>\<open>MODE_COUNT\<close> is \<open>sizeof(kModes)/sizeof(kModes[0])\<close>, the same in both variants.\<close>

definition MODE_COUNT :: nat where
  "MODE_COUNT = length kModes"

subsection \<open>Application state\<close>

datatype ScreenId = ScreenMenu | ScreenHelp | ScreenSettings

datatype ScreenId_p1 = ScreenSelectInverter | ScreenMenu_p1 | ScreenHelp_p1 | ScreenSettings_p1

datatype InverterId = InvEmbraco | InvSamsung

text \<open>
  \<open>AppState\<close> of \<open>src/embraco_starter.c\<close>, with the screen type left open so that the
  inverter-select variant extends it. \<open>notif\<close> is whether the notification handle is
  non-\<open>NULL\<close>. The \<open>gui\<close>, \<open>vp\<close> and \<open>q\<close> handles only carry redraw requests and the
  input queue; they are not modelled, and \<open>view_port_update\<close> calls are left out.
  \<open>plat\<close> is not a field of the C struct: it is the hardware the application drives,
  carried in the state so that every function is a function from state to state.
\<close>

record 'scr AppState =
  screen :: 'scr
  cursor :: u8
  first_visible :: u8
  active :: u8
  help_top_line :: u8
  limit_runtime :: bool
  notif :: bool
  led_timer :: "FuriTimer option"
  led_on :: bool
  pwm_running :: bool
  hint_visible :: bool
  hint_timer :: "FuriTimer option"
  tick_timer :: "FuriTimer option"
  off_timer :: "FuriTimer option"
  remaining_ms :: u32
  timeout_expired :: bool
  plat :: Platform

record AppState_p1 = "ScreenId_p1 AppState" +
  inverter :: InverterId
  powered :: bool
  arrow_captcha :: bool

subsection \<open>Pin and PWM helpers\<close>

definition pin_to_hiz :: "('scr, 'z) AppState_scheme \<Rightarrow> ('scr, 'z) AppState_scheme" where
  "pin_to_hiz s = s\<lparr>plat := furi_hal_gpio_init GpioModeInput (plat s)\<rparr>"

definition pin_to_pp_low :: "('scr, 'z) AppState_scheme \<Rightarrow> ('scr, 'z) AppState_scheme" where
  "pin_to_pp_low s =
     s\<lparr>plat := furi_hal_gpio_write False (furi_hal_gpio_init GpioModeOutputPushPull (plat s))\<rparr>"

text \<open>
  \<open>pwm_hw_stop_safe\<close> and \<open>pwm_hw_start_safe\<close> take \<open>bool* running\<close>; every call site
  passes \<open>&s->pwm_running\<close>.
\<close>

definition pwm_hw_stop_safe :: "('scr, 'z) AppState_scheme \<Rightarrow> ('scr, 'z) AppState_scheme" where
  "pwm_hw_stop_safe s =
     (if pwm_running s
      then s\<lparr>plat := furi_delay_ms 1 (furi_hal_pwm_stop (plat s)), pwm_running := False\<rparr>
      else s)"

definition pwm_hw_start_safe ::
  "u32 \<Rightarrow> ('scr, 'z) AppState_scheme \<Rightarrow> ('scr, 'z) AppState_scheme" where
  "pwm_hw_start_safe f s = s\<lparr>plat := furi_hal_pwm_start f 50 (plat s), pwm_running := True\<rparr>"

subsection \<open>LED\<close>

definition led_set :: "bool \<Rightarrow> ('scr, 'z) AppState_scheme \<Rightarrow> ('scr, 'z) AppState_scheme" where
  "led_set on s =
     (if \<not> notif s then s
      else if on then s\<lparr>plat := notification_message sequence_set_green_255 (plat s)\<rparr>
      else s\<lparr>plat := notification_message sequence_reset_rgb (plat s)\<rparr>)"

definition led_timer_cb :: "('scr, 'z) AppState_scheme \<Rightarrow> ('scr, 'z) AppState_scheme" where
  "led_timer_cb s = (let s1 = s\<lparr>led_on := \<not> led_on s\<rparr> in led_set (led_on s1) s1)"

text \<open>\<open>1000U / (blink_hz * 2U)\<close> is unsigned 32-bit arithmetic.\<close>

definition led_apply :: "('scr, 'z) AppState_scheme \<Rightarrow> u8 \<Rightarrow> ('scr, 'z) AppState_scheme" where
  "led_apply s blink_hz =
     (let s1 = (case led_timer s of
                  None \<Rightarrow> s
                | Some t \<Rightarrow> s\<lparr>led_timer := None,
                              plat := emit (TimerFree (t_cb t)) (emit (TimerStop (t_cb t)) (plat s))\<rparr>);
          s2 = led_set False (s1\<lparr>led_on := False\<rparr>)
      in if blink_hz = 0 then s2
         else (let ms0 = (1000 :: u32) div (ucast blink_hz * 2);
                   ms = (if ms0 = 0 then 1 else ms0);
                   t = furi_timer_alloc LedTimerCb FuriTimerTypePeriodic
               in s2\<lparr>led_timer := Some (furi_timer_start t ms),
                     plat := emit (TimerStart LedTimerCb ms)
                               (emit (TimerAlloc LedTimerCb FuriTimerTypePeriodic) (plat s2))\<rparr>))"

subsection \<open>Dotted scrollbar\<close>

datatype Draw = Dot u16 u16 | Box u16 u16 u16 u16

definition SCROLLBAR_X :: u16 where "SCROLLBAR_X = 124"
definition SCROLLBAR_W :: u16 where "SCROLLBAR_W = 3"
definition SCROLLBAR_Y0 :: u16 where "SCROLLBAR_Y0 = 2"
definition SCROLLBAR_Y1 :: u16 where "SCROLLBAR_Y1 = 62"

text \<open>The rail loop \<open>for(uint16_t y = y0; y <= y1; y += 3) canvas_draw_dot(c, x, y)\<close>.\<close>

function rail_dots :: "u16 \<Rightarrow> Draw list" where
  "rail_dots y = (if y \<le> SCROLLBAR_Y1 then Dot SCROLLBAR_X y # rail_dots (y + 3) else [])"
  by pat_completeness auto
termination
proof (relation "measure (\<lambda>y. 65 - unat y)")
  show "wf (measure (\<lambda>y :: u16. 65 - unat y))" by simp
next
  fix y :: u16
  assume "y \<le> SCROLLBAR_Y1"
  then have le: "unat y \<le> 62"
    by (simp add: SCROLLBAR_Y1_def word_le_nat_alt)
  then have "unat (y + 3) = unat y + 3"
    by (simp add: unat_word_ariths)
  with le show "(y + 3, y) \<in> measure (\<lambda>y. 65 - unat y)" by simp
qed

declare rail_dots.simps [simp del]

text \<open>
  The thumb position of \<open>draw_scrollbar_dotted\<close> in \<open>src/embraco_starter.c\<close>:
  \<open>pos * track_h\<close> and the division are \<open>int\<close> arithmetic, the quotient is cast to
  \<open>uint16_t\<close>, added to \<open>y0\<close> and stored in a \<open>uint16_t\<close>; then the lower clamp, then the
  upper one.
\<close>

definition scrollbar_denom :: "u16 \<Rightarrow> u16" where
  "scrollbar_denom total_steps = (if total_steps > 1 then total_steps - 1 else 1)"

definition thumb_y :: "u16 \<Rightarrow> u16 \<Rightarrow> u16" where
  "thumb_y total_steps pos =
     (let y0 = SCROLLBAR_Y0; y1 = SCROLLBAR_Y1;
          track_h = y1 - y0;
          denom = scrollbar_denom total_steps;
          q = (word_of_int ((uint pos * uint track_h) div uint denom) :: u16);
          ty0 = (word_of_int (uint y0 + uint q) :: u16);
          ty1 = (if ty0 < y0 then y0 else ty0);
          ty2 = (if ty1 > y1 - 1 then y1 - 1 else ty1)
      in ty2)"

definition draw_scrollbar_dotted :: "u16 \<Rightarrow> u16 \<Rightarrow> Draw list" where
  "draw_scrollbar_dotted total_steps pos =
     (if total_steps \<le> 1 then []
      else rail_dots SCROLLBAR_Y0
           @ [Box (SCROLLBAR_X - 1) (thumb_y total_steps pos - 1) 3 4])"

text \<open>
  The inverter-select variant casts the whole sum \<open>y0 + (pos * track_h) / denom\<close> and
  clamps from above first.
\<close>

definition thumb_y_p1 :: "u16 \<Rightarrow> u16 \<Rightarrow> u16" where
  "thumb_y_p1 total_steps pos =
     (let y0 = SCROLLBAR_Y0; y1 = SCROLLBAR_Y1;
          track_h = y1 - y0;
          denom = scrollbar_denom total_steps;
          ty0 = (word_of_int (uint y0 + (uint pos * uint track_h) div uint denom) :: u16);
          ty1 = (if ty0 > y1 - 1 then y1 - 1 else ty0);
          ty2 = (if ty1 < y0 then y0 else ty1)
      in ty2)"

definition draw_scrollbar_dotted_p1 :: "u16 \<Rightarrow> u16 \<Rightarrow> Draw list" where
  "draw_scrollbar_dotted_p1 total_steps pos =
     (if total_steps \<le> 1 then []
      else rail_dots SCROLLBAR_Y0
           @ [Box (SCROLLBAR_X - 1) (thumb_y_p1 total_steps pos - 1) SCROLLBAR_W 4])"

subsection \<open>Countdown timers\<close>

definition tick_timer_cb :: "('scr, 'z) AppState_scheme \<Rightarrow> ('scr, 'z) AppState_scheme" where
  "tick_timer_cb s =
     (if remaining_ms s \<ge> 1000 then s\<lparr>remaining_ms := remaining_ms s - 1000\<rparr>
      else s\<lparr>remaining_ms := 0\<rparr>)"

definition off_timer_cb :: "('scr, 'z) AppState_scheme \<Rightarrow> ('scr, 'z) AppState_scheme" where
  "off_timer_cb s = s\<lparr>remaining_ms := 0, timeout_expired := True\<rparr>"

definition hint_timer_cb :: "('scr, 'z) AppState_scheme \<Rightarrow> ('scr, 'z) AppState_scheme" where
  "hint_timer_cb s = s\<lparr>hint_visible := False\<rparr>"

definition stop_timers :: "('scr, 'z) AppState_scheme \<Rightarrow> ('scr, 'z) AppState_scheme" where
  "stop_timers s =
     (let s1 = (case tick_timer s of
                  None \<Rightarrow> s
                | Some t \<Rightarrow> s\<lparr>tick_timer := Some (furi_timer_stop t),
                              plat := emit (TimerStop (t_cb t)) (plat s)\<rparr>);
          s2 = (case off_timer s1 of
                  None \<Rightarrow> s1
                | Some t \<Rightarrow> s1\<lparr>off_timer := Some (furi_timer_stop t),
                               plat := emit (TimerStop (t_cb t)) (plat s1)\<rparr>)
      in s2)"

definition free_timers :: "('scr, 'z) AppState_scheme \<Rightarrow> ('scr, 'z) AppState_scheme" where
  "free_timers s =
     (let s1 = (case tick_timer s of
                  None \<Rightarrow> s
                | Some t \<Rightarrow> s\<lparr>tick_timer := None, plat := emit (TimerFree (t_cb t)) (plat s)\<rparr>);
          s2 = (case off_timer s1 of
                  None \<Rightarrow> s1
                | Some t \<Rightarrow> s1\<lparr>off_timer := None, plat := emit (TimerFree (t_cb t)) (plat s1)\<rparr>)
      in s2)"

text \<open>
  The tail of \<open>start_tick_timer_if_needed\<close>, from \<open>s->remaining_ms = secs * 1000U\<close> on:
  allocate the two timers if their handles are \<open>NULL\<close>, then start both.
  \<open>furi_timer_alloc\<close> does not return \<open>NULL\<close>, so both handles are set when the timers
  are started.
\<close>

definition arm_countdown :: "u32 \<Rightarrow> ('scr, 'z) AppState_scheme \<Rightarrow> ('scr, 'z) AppState_scheme" where
  "arm_countdown secs s =
     (let s1 = s\<lparr>remaining_ms := secs * 1000\<rparr>;
          s2 = (case tick_timer s1 of
                  Some t \<Rightarrow> s1
                | None \<Rightarrow> s1\<lparr>tick_timer := Some (furi_timer_alloc TickTimerCb FuriTimerTypePeriodic),
                             plat := emit (TimerAlloc TickTimerCb FuriTimerTypePeriodic) (plat s1)\<rparr>);
          s3 = (case off_timer s2 of
                  Some t \<Rightarrow> s2
                | None \<Rightarrow> s2\<lparr>off_timer := Some (furi_timer_alloc OffTimerCb FuriTimerTypeOnce),
                             plat := emit (TimerAlloc OffTimerCb FuriTimerTypeOnce) (plat s2)\<rparr>);
          s4 = (case tick_timer s3 of
                  None \<Rightarrow> s3
                | Some t \<Rightarrow> s3\<lparr>tick_timer := Some (furi_timer_start t 1000),
                               plat := emit (TimerStart (t_cb t) 1000) (plat s3)\<rparr>);
          s5 = (case off_timer s4 of
                  None \<Rightarrow> s4
                | Some t \<Rightarrow> s4\<lparr>off_timer := Some (furi_timer_start t (remaining_ms s4)),
                               plat := emit (TimerStart (t_cb t) (remaining_ms s4)) (plat s4)\<rparr>)
      in s5)"

text \<open>
  \<open>start_tick_timer_if_needed\<close> reads \<open>kModes[s->active]\<close>; \<open>active\<close> is written only by
  \<open>apply_mode\<close> after its index guard, or set to 0.
\<close>

definition start_tick_timer_if_needed ::
  "('scr, 'z) AppState_scheme \<Rightarrow> ('scr, 'z) AppState_scheme" where
  "start_tick_timer_if_needed s =
     (let s1 = (stop_timers s)\<lparr>remaining_ms := 0, timeout_expired := False\<rparr>
      in if \<not> limit_runtime s1 then s1
         else if active s1 = 0 then s1
         else (let secs = default_secs (kModes ! unat (active s1))
               in if secs = 0 then s1 else arm_countdown secs s1))"

definition start_tick_timer_if_needed_p1 :: "AppState_p1 \<Rightarrow> AppState_p1" where
  "start_tick_timer_if_needed_p1 s =
     (let s1 = (stop_timers s)\<lparr>remaining_ms := 0, timeout_expired := False\<rparr>
      in if \<not> powered s1 then s1
         else if \<not> limit_runtime s1 then s1
         else if active s1 = 0 then s1
         else (let secs = default_secs (kModes_p1 ! unat (active s1))
               in if secs = 0 then s1 else arm_countdown secs s1))"

subsection \<open>Applying a mode\<close>

definition apply_mode :: "('scr, 'z) AppState_scheme \<Rightarrow> u8 \<Rightarrow> ('scr, 'z) AppState_scheme" where
  "apply_mode s idx =
     (if unat idx \<ge> MODE_COUNT then s
      else (let s1 = s\<lparr>active := idx\<rparr>;
                m = kModes ! unat idx;
                s2 = (if freq_hz m = 0
                      then (stop_timers (pin_to_pp_low (pwm_hw_stop_safe s1)))
                             \<lparr>remaining_ms := 0, timeout_expired := False\<rparr>
                      else start_tick_timer_if_needed
                             (pwm_hw_start_safe (freq_hz m) (pwm_hw_stop_safe s1)))
            in led_apply s2 (led_blink_hz m)))"

definition apply_mode_p1 :: "AppState_p1 \<Rightarrow> u8 \<Rightarrow> AppState_p1" where
  "apply_mode_p1 s idx =
     (if unat idx \<ge> MODE_COUNT then s
      else (let s1 = s\<lparr>active := idx\<rparr>;
                m = kModes_p1 ! unat idx;
                s2 = (if freq_hz m = 0
                      then (stop_timers (pin_to_pp_low (pwm_hw_stop_safe s1)))
                             \<lparr>remaining_ms := 0, timeout_expired := False\<rparr>
                      else start_tick_timer_if_needed_p1
                             (pwm_hw_start_safe (freq_hz m) (pwm_hw_stop_safe s1)))
            in led_apply s2 (led_blink_hz m)))"

subsection \<open>Input events and the timer service\<close>

datatype InputType =
  InputTypePress | InputTypeRelease | InputTypeShort | InputTypeLong | InputTypeRepeat

datatype InputKey =
  InputKeyUp | InputKeyDown | InputKeyRight | InputKeyLeft | InputKeyOk | InputKeyBack

datatype InputEvent = InputEvent InputType InputKey

text \<open>
  What reaches the application while it waits on its input queue: a timer expiry (the
  timer service calls the callback of a running timer), the 100 ms queue timeout with no
  input, or an input event. The flag of \<open>Key\<close> is the answer the user gives if handling the
  event opens a confirmation dialog (\<open>True\<close> is the right button, "Confirm").
\<close>

datatype Stimulus = TimerFired TimerCb | QueueTimeout | Key InputEvent bool

text \<open>
  Modelled from the spec: the timer service of section 6 calls a callback only for a
  timer that is running, and a one-shot timer stops when it has fired.
\<close>

definition timer_fired :: "TimerCb \<Rightarrow> ('scr, 'z) AppState_scheme \<Rightarrow> ('scr, 'z) AppState_scheme" where
  "timer_fired cb s =
     (case cb of
        LedTimerCb \<Rightarrow>
          (case led_timer s of
             None \<Rightarrow> s
           | Some t \<Rightarrow> if t_running t then led_timer_cb (s\<lparr>led_timer := Some (after_fire t)\<rparr>) else s)
      | HintTimerCb \<Rightarrow>
          (case hint_timer s of
             None \<Rightarrow> s
           | Some t \<Rightarrow> if t_running t then hint_timer_cb (s\<lparr>hint_timer := Some (after_fire t)\<rparr>) else s)
      | TickTimerCb \<Rightarrow>
          (case tick_timer s of
             None \<Rightarrow> s
           | Some t \<Rightarrow> if t_running t then tick_timer_cb (s\<lparr>tick_timer := Some (after_fire t)\<rparr>) else s)
      | OffTimerCb \<Rightarrow>
          (case off_timer s of
             None \<Rightarrow> s
           | Some t \<Rightarrow> if t_running t then off_timer_cb (s\<lparr>off_timer := Some (after_fire t)\<rparr>) else s))"

text \<open>The short-Back hint: set the flag, allocate the one-shot timer once, start it for 1500 ms.\<close>

definition show_hint :: "('scr, 'z) AppState_scheme \<Rightarrow> ('scr, 'z) AppState_scheme" where
  "show_hint s =
     (let s1 = s\<lparr>hint_visible := True\<rparr>;
          s2 = (case hint_timer s1 of
                  Some t \<Rightarrow> s1
                | None \<Rightarrow> s1\<lparr>hint_timer := Some (furi_timer_alloc HintTimerCb FuriTimerTypeOnce),
                             plat := emit (TimerAlloc HintTimerCb FuriTimerTypeOnce) (plat s1)\<rparr>)
      in case hint_timer s2 of
           None \<Rightarrow> s2
         | Some t \<Rightarrow> s2\<lparr>hint_timer := Some (furi_timer_start t 1500),
                        plat := emit (TimerStart (t_cb t) 1500) (plat s2)\<rparr>)"

subsection \<open>Help text\<close>

definition HELP_LINES :: "string list" where
  "HELP_LINES =
     [''Connect wires as follows:'', '''', ''2 (A7)    -> inverter +'', ''(usually RED wire)'',
      ''8 (GND)  -> inverter -'', ''(usually WHITE wire)'', '''', ''Note:'',
      ''This app provides'', ''3 test speeds:'', '''', ''Low speed:'', ''2000 RPM (VNE)'',
      ''1800 RPM (VEG, FMF)'', '''', ''Mid speed:'', ''3000 RPM'', ''(VNE, VEG, FMF)'', '''',
      ''Max speed:'', ''4500 RPM'', ''(VNE, VEG, FMF)'', '''', ''Embraco compressors'',
      ''support many speeds'', ''with 30 RPM steps.'', '''', ''----------------'', '''',
      ''App created by'', ''Adam Gray'', ''Founder of'', ''Expert Hub'', ''experthub.app'', '''',
      ''----------------'', '''', ''Press BACK to start.'']"

definition HELP_SAMSUNG :: "string list" where
  "HELP_SAMSUNG = [''In development'']"

text \<open>
  \<open>help_layout_params\<close> returns \<open>(max_lines, max_top_line)\<close>; the inverter-select variant
  takes the number of lines as an argument, \<open>src/embraco_starter.c\<close> uses
  \<open>HELP_LINES_COUNT\<close>.
\<close>

definition help_layout_params_p1 :: "u8 \<Rightarrow> u8 \<times> u8" where
  "help_layout_params_p1 total_lines =
     (let top = (10 :: u8); line_h = (9 :: u8);
          ml0 = (word_of_int ((64 - uint top) div uint line_h) :: u8);
          ml = (if ml0 < 1 then 1 else ml0);
          mtl = (if total_lines > ml then total_lines - ml else 0)
      in (ml, mtl))"

definition help_layout_params :: "u8 \<times> u8" where
  "help_layout_params = help_layout_params_p1 (of_nat (length HELP_LINES))"

subsection \<open>Main loop of src/embraco\_starter.c\<close>

definition ROW_TOTAL :: u8 where "ROW_TOTAL = of_nat (MODE_COUNT + 2)"
definition MAX_ROWS :: u8 where "MAX_ROWS = 4"

text \<open>List navigation shared by every menu: \<open>row_total\<close> rows in a window of \<open>MAX_ROWS\<close>.\<close>

definition nav_up :: "u8 \<Rightarrow> ('scr, 'z) AppState_scheme \<Rightarrow> ('scr, 'z) AppState_scheme" where
  "nav_up row_total s =
     (if cursor s = 0
      then s\<lparr>cursor := row_total - 1,
             first_visible := (if row_total > MAX_ROWS then row_total - MAX_ROWS else 0)\<rparr>
      else (let s1 = s\<lparr>cursor := cursor s - 1\<rparr>
            in if cursor s1 < first_visible s1 then s1\<lparr>first_visible := cursor s1\<rparr> else s1))"

definition nav_down :: "u8 \<Rightarrow> ('scr, 'z) AppState_scheme \<Rightarrow> ('scr, 'z) AppState_scheme" where
  "nav_down row_total s =
     (if cursor s = row_total - 1
      then s\<lparr>cursor := 0, first_visible := 0\<rparr>
      else (let s1 = s\<lparr>cursor := cursor s + 1\<rparr>
            in if uint (cursor s1) \<ge> uint (first_visible s1) + uint MAX_ROWS
               then s1\<lparr>first_visible := cursor s1 - (MAX_ROWS - 1)\<rparr> else s1))"

text \<open>The Help branch of the event dispatch (lines 562 to 578).\<close>

definition help_input :: "ScreenId AppState \<Rightarrow> InputType \<Rightarrow> InputKey \<Rightarrow> ScreenId AppState" where
  "help_input s ty key =
     (if ty = InputTypeShort \<or> ty = InputTypeRepeat
      then (let max_top_line = snd help_layout_params
            in if key = InputKeyUp
               then (if help_top_line s > 0 then s\<lparr>help_top_line := help_top_line s - 1\<rparr> else s)
               else if key = InputKeyDown
               then (if help_top_line s < max_top_line
                     then s\<lparr>help_top_line := help_top_line s + 1\<rparr> else s)
               else if key = InputKeyBack
               then apply_mode (s\<lparr>screen := ScreenMenu, cursor := 0, first_visible := 0\<rparr>) 0
               else s)
      else s)"

text \<open>
  The Settings branch (lines 579 to 599). \<open>confirm\<close> is what \<open>show_limit_alert_confirm\<close>
  returns; the dialog is shown only on the way from Yes to No.
\<close>

definition settings_input ::
  "ScreenId AppState \<Rightarrow> InputType \<Rightarrow> InputKey \<Rightarrow> bool \<Rightarrow> ScreenId AppState" where
  "settings_input s ty key confirm =
     (if ty = InputTypeShort
      then (if key = InputKeyOk
            then (if limit_runtime s
                  then (if confirm
                        then (stop_timers (s\<lparr>limit_runtime := False\<rparr>))\<lparr>remaining_ms := 0\<rparr>
                        else s)
                  else (let s1 = s\<lparr>limit_runtime := True\<rparr>
                        in if active s1 \<noteq> 0 then start_tick_timer_if_needed s1 else s1))
            else if key = InputKeyBack then s\<lparr>screen := ScreenMenu\<rparr>
            else s)
      else s)"

text \<open>The Menu branch (lines 600 to 656); the second component is the \<open>exit\<close> flag.\<close>

definition menu_input ::
  "ScreenId AppState \<Rightarrow> InputType \<Rightarrow> InputKey \<Rightarrow> ScreenId AppState \<times> bool" where
  "menu_input s ty key =
     (if ty = InputTypeShort
      then (if key = InputKeyUp then (nav_up ROW_TOTAL s, False)
            else if key = InputKeyDown then (nav_down ROW_TOTAL s, False)
            else if key = InputKeyOk
            then (if unat (cursor s) < MODE_COUNT then (apply_mode s (cursor s), False)
                  else if unat (cursor s) = MODE_COUNT then (s\<lparr>screen := ScreenSettings\<rparr>, False)
                  else (let s1 = stop_timers (led_apply (pin_to_hiz (pwm_hw_stop_safe s)) 0)
                        in (s1\<lparr>remaining_ms := 0, timeout_expired := False,
                               screen := ScreenHelp, help_top_line := 0, active := 0,
                               cursor := 0, first_visible := 0\<rparr>, False)))
            else if key = InputKeyBack then (show_hint s, False)
            else (s, False))
      else if ty = InputTypeLong
      then (if key = InputKeyBack then (s, True) else (s, False))
      else (s, False))"

definition input_step :: "ScreenId AppState \<Rightarrow> InputEvent \<Rightarrow> bool \<Rightarrow> ScreenId AppState \<times> bool" where
  "input_step s ev confirm =
     (case ev of InputEvent ty key \<Rightarrow>
        if screen s = ScreenHelp then (help_input s ty key, False)
        else if screen s = ScreenSettings then (settings_input s ty key confirm, False)
        else menu_input s ty key)"

text \<open>The timeout service at the head of the loop (lines 552 to 558).\<close>

definition service_timeout :: "ScreenId AppState \<Rightarrow> ScreenId AppState" where
  "service_timeout s =
     (if timeout_expired s
      then (apply_mode (s\<lparr>timeout_expired := False\<rparr>) 0)\<lparr>cursor := 0, first_visible := 0\<rparr>
      else s)"

text \<open>The cleanup after the loop (lines 662 to 668), the same text in both variants.\<close>

definition cleanup :: "('scr, 'z) AppState_scheme \<Rightarrow> ('scr, 'z) AppState_scheme" where
  "cleanup s =
     (let s1 = (case led_timer s of
                  None \<Rightarrow> s
                | Some t \<Rightarrow> s\<lparr>led_timer := None,
                              plat := emit (TimerFree (t_cb t)) (emit (TimerStop (t_cb t)) (plat s))\<rparr>);
          s2 = (case hint_timer s1 of
                  None \<Rightarrow> s1
                | Some t \<Rightarrow> s1\<lparr>hint_timer := None,
                               plat := emit (TimerFree (t_cb t)) (emit (TimerStop (t_cb t)) (plat s1))\<rparr>);
          s3 = pin_to_hiz (pwm_hw_stop_safe (free_timers (stop_timers s2)))
      in s3\<lparr>plat := notification_message sequence_reset_rgb (plat s3)\<rparr>)"

text \<open>
  The initial state of \<open>embraco_starter\<close> up to the loop: the struct initialiser, then
  \<open>pin_to_hiz(); led_apply(&s, 0)\<close>. \<open>pl\<close> is the hardware as the application finds it.
\<close>

definition embraco_starter_init :: "Platform \<Rightarrow> ScreenId AppState" where
  "embraco_starter_init pl =
     led_apply (pin_to_hiz
       \<lparr>screen = ScreenHelp, cursor = 0, first_visible = 0, active = 0, help_top_line = 0,
        limit_runtime = True, notif = True, led_timer = None, led_on = False,
        pwm_running = False, hint_visible = False, hint_timer = None, tick_timer = None,
        off_timer = None, remaining_ms = 0, timeout_expired = False, plat = pl\<rparr>) 0"

text \<open>
  The loop \<open>while(!exit)\<close>, then the cleanup. One pass tests \<open>timeout_expired\<close> at its
  head and then waits up to 100 ms on the input queue. The timer service runs the
  callbacks while the application waits, so a callback that fires during the wait finds
  the state the head left and the event that ends the wait is dispatched on the state
  the callbacks left, with no second test of the flag. \<open>queue_wait s stimuli\<close> is the loop
  from the wait on, entered in state \<open>s\<close>: a \<open>TimerFired\<close> is a callback during this wait, a
  \<open>QueueTimeout\<close> ends the wait with no event, a \<open>Key\<close> ends it with an event; after
  either the next pass starts at its head, unless the event has set \<open>exit\<close>. The result is
  the state the application returns in, or \<open>None\<close> when the stimuli run out before an
  exit: the application is then still running.
\<close>

fun queue_wait :: "ScreenId AppState \<Rightarrow> Stimulus list \<Rightarrow> ScreenId AppState option" where
  "queue_wait s [] = None"
| "queue_wait s (TimerFired cb # rest) = queue_wait (timer_fired cb s) rest"
| "queue_wait s (QueueTimeout # rest) = queue_wait (service_timeout s) rest"
| "queue_wait s (Key ev confirm # rest) =
     (case input_step s ev confirm of
        (s1, ex) \<Rightarrow> if ex then Some (cleanup s1) else queue_wait (service_timeout s1) rest)"

text \<open>The loop from the head of a pass on.\<close>

definition main_loop :: "ScreenId AppState \<Rightarrow> Stimulus list \<Rightarrow> ScreenId AppState option" where
  "main_loop s stimuli = queue_wait (service_timeout s) stimuli"

definition embraco_starter :: "Platform \<Rightarrow> Stimulus list \<Rightarrow> ScreenId AppState option" where
  "embraco_starter pl stimuli = main_loop (embraco_starter_init pl) stimuli"

subsection \<open>Main loop of the inverter-select variant\<close>

definition enter_safe_menu :: "AppState_p1 \<Rightarrow> AppState_p1" where
  "enter_safe_menu s =
     (let s1 = s\<lparr>powered := False, cursor := 0, first_visible := 0\<rparr>;
          s2 = stop_timers (led_apply (pin_to_hiz (pwm_hw_stop_safe s1)) 0)
      in s2\<lparr>remaining_ms := 0, timeout_expired := False\<rparr>)"

definition enter_powered_menu_standby :: "AppState_p1 \<Rightarrow> AppState_p1" where
  "enter_powered_menu_standby s =
     apply_mode_p1 (s\<lparr>powered := True, cursor := 0, first_visible := 0\<rparr>) 0"

definition select_inverter_input :: "AppState_p1 \<Rightarrow> InputType \<Rightarrow> InputKey \<Rightarrow> AppState_p1" where
  "select_inverter_input s ty key =
     (if ty = InputTypeShort \<or> ty = InputTypeRepeat
      then (if key = InputKeyUp then s\<lparr>cursor := (if cursor s = 0 then 1 else 0)\<rparr>
            else if key = InputKeyDown then s\<lparr>cursor := (if cursor s = 1 then 0 else 1)\<rparr>
            else if key = InputKeyOk
            then (enter_safe_menu
                    (s\<lparr>inverter := (if cursor s = 0 then InvEmbraco else InvSamsung)\<rparr>))
                   \<lparr>screen := ScreenMenu_p1\<rparr>
            else if key = InputKeyBack then show_hint s
            else s)
      else s)"

text \<open>
  The Menu case. \<open>confirm\<close> is what \<open>show_power_on_confirm\<close> returns; the dialog is shown
  only for "Power on" in the unpowered menu.
\<close>

definition menu_input_p1 :: "AppState_p1 \<Rightarrow> InputType \<Rightarrow> InputKey \<Rightarrow> bool \<Rightarrow> AppState_p1" where
  "menu_input_p1 s ty key confirm =
     (let row_total = (if powered s then of_nat (MODE_COUNT + 3) else (3 :: u8))
      in if ty = InputTypeShort
         then (if key = InputKeyUp then nav_up row_total s
               else if key = InputKeyDown then nav_down row_total s
               else if key = InputKeyOk
               then (if powered s
                     then (if unat (cursor s) < MODE_COUNT then apply_mode_p1 s (cursor s)
                           else if unat (cursor s) = MODE_COUNT then enter_safe_menu s
                           else if unat (cursor s) = MODE_COUNT + 1
                           then s\<lparr>screen := ScreenSettings_p1, cursor := 0, first_visible := 0\<rparr>
                           else (apply_mode_p1 s 0)\<lparr>screen := ScreenHelp_p1, help_top_line := 0\<rparr>)
                     else (if cursor s = 0
                           then (if confirm then enter_powered_menu_standby s else s)
                           else if cursor s = 1
                           then s\<lparr>screen := ScreenSettings_p1, cursor := 0, first_visible := 0\<rparr>
                           else s\<lparr>screen := ScreenHelp_p1, help_top_line := 0\<rparr>))
               else if key = InputKeyBack then show_hint s
               else s)
         else s)"

definition help_input_p1 :: "AppState_p1 \<Rightarrow> InputType \<Rightarrow> InputKey \<Rightarrow> AppState_p1" where
  "help_input_p1 s ty key =
     (if ty = InputTypeShort \<or> ty = InputTypeRepeat
      then (let total_lines = (if inverter s = InvEmbraco then of_nat (length HELP_LINES)
                               else of_nat (length HELP_SAMSUNG));
                max_top_line = snd (help_layout_params_p1 total_lines)
            in if key = InputKeyUp
               then (if help_top_line s > 0 then s\<lparr>help_top_line := help_top_line s - 1\<rparr> else s)
               else if key = InputKeyDown
               then (if help_top_line s < max_top_line
                     then s\<lparr>help_top_line := help_top_line s + 1\<rparr> else s)
               else if key = InputKeyBack then s\<lparr>screen := ScreenMenu_p1\<rparr>
               else s)
      else s)"

text \<open>
  The Settings case: five rows, row 2 is a header the cursor skips. \<open>confirm\<close> is what
  \<open>show_limit_alert_confirm\<close> returns.
\<close>

definition settings_input_p1 :: "AppState_p1 \<Rightarrow> InputType \<Rightarrow> InputKey \<Rightarrow> bool \<Rightarrow> AppState_p1" where
  "settings_input_p1 s ty key confirm =
     (let row_total = (5 :: u8); max_rows_s = (4 :: u8)
      in if ty = InputTypeShort
         then (if key = InputKeyUp
               then (if cursor s = 0
                     then s\<lparr>cursor := row_total - 1,
                            first_visible := (if row_total > max_rows_s then row_total - max_rows_s else 0)\<rparr>
                     else (let s1 = s\<lparr>cursor := cursor s - 1\<rparr>;
                               s2 = (if cursor s1 = 2 then s1\<lparr>cursor := 1\<rparr> else s1)
                           in if cursor s2 < first_visible s2 then s2\<lparr>first_visible := cursor s2\<rparr>
                              else s2))
               else if key = InputKeyDown
               then (if cursor s = row_total - 1
                     then s\<lparr>cursor := 0, first_visible := 0\<rparr>
                     else (let s1 = s\<lparr>cursor := cursor s + 1\<rparr>;
                               s2 = (if cursor s1 = 2 then s1\<lparr>cursor := 3\<rparr> else s1)
                           in if uint (cursor s2) \<ge> uint (first_visible s2) + uint max_rows_s
                              then s2\<lparr>first_visible := cursor s2 - (max_rows_s - 1)\<rparr> else s2))
               else if key = InputKeyOk
               then (if cursor s = 0
                     then (if limit_runtime s
                           then (if confirm
                                 then (stop_timers (s\<lparr>limit_runtime := False\<rparr>))\<lparr>remaining_ms := 0\<rparr>
                                 else s)
                           else start_tick_timer_if_needed_p1 (s\<lparr>limit_runtime := True\<rparr>))
                     else if cursor s = 1 then s\<lparr>arrow_captcha := \<not> arrow_captcha s\<rparr>
                     else if cursor s = 3
                     then (if inverter s \<noteq> InvEmbraco
                           then (enter_safe_menu (s\<lparr>inverter := InvEmbraco\<rparr>))\<lparr>screen := ScreenMenu_p1\<rparr>
                           else s)
                     else if cursor s = 4
                     then (if inverter s \<noteq> InvSamsung
                           then (enter_safe_menu (s\<lparr>inverter := InvSamsung\<rparr>))\<lparr>screen := ScreenMenu_p1\<rparr>
                           else s)
                     else s)
               else if key = InputKeyBack
               then s\<lparr>screen := ScreenMenu_p1, cursor := 0, first_visible := 0\<rparr>
               else s)
         else s)"

text \<open>
  The body of \<open>if(furi_message_queue_get(...) == FuriStatusOk)\<close>: the long Back test
  comes first, then the \<open>switch\<close> on the screen. The second component is \<open>exit_app\<close>.
\<close>

definition input_step_p1 :: "AppState_p1 \<Rightarrow> InputEvent \<Rightarrow> bool \<Rightarrow> AppState_p1 \<times> bool" where
  "input_step_p1 s ev confirm =
     (case ev of InputEvent ty key \<Rightarrow>
        if ty = InputTypeLong \<and> key = InputKeyBack then (s, True)
        else (case screen s of
                ScreenSelectInverter \<Rightarrow> (select_inverter_input s ty key, False)
              | ScreenMenu_p1 \<Rightarrow> (menu_input_p1 s ty key confirm, False)
              | ScreenHelp_p1 \<Rightarrow> (help_input_p1 s ty key, False)
              | ScreenSettings_p1 \<Rightarrow> (settings_input_p1 s ty key confirm, False)))"

definition service_timeout_p1 :: "AppState_p1 \<Rightarrow> AppState_p1" where
  "service_timeout_p1 s =
     (if timeout_expired s then enter_powered_menu_standby (s\<lparr>timeout_expired := False\<rparr>) else s)"

definition embraco_starter_init_p1 :: "Platform \<Rightarrow> AppState_p1" where
  "embraco_starter_init_p1 pl =
     led_apply (pin_to_hiz
       \<lparr>screen = ScreenSelectInverter, cursor = 0, first_visible = 0, active = 0,
        help_top_line = 0, limit_runtime = True, notif = True, led_timer = None, led_on = False,
        pwm_running = False, hint_visible = False, hint_timer = None, tick_timer = None,
        off_timer = None, remaining_ms = 0, timeout_expired = False, plat = pl,
        inverter = InvEmbraco, powered = False, arrow_captcha = True\<rparr>) 0"

text \<open>
  The loop of the inverter-select variant, in the same two parts: \<open>queue_wait_p1\<close> from the
  queue wait on, \<open>main_loop_p1\<close> from the head of a pass on. The long Back sets \<open>exit_app\<close>
  and \<open>continue\<close>s, which ends the loop at its condition.
\<close>

fun queue_wait_p1 :: "AppState_p1 \<Rightarrow> Stimulus list \<Rightarrow> AppState_p1 option" where
  "queue_wait_p1 s [] = None"
| "queue_wait_p1 s (TimerFired cb # rest) = queue_wait_p1 (timer_fired cb s) rest"
| "queue_wait_p1 s (QueueTimeout # rest) = queue_wait_p1 (service_timeout_p1 s) rest"
| "queue_wait_p1 s (Key ev confirm # rest) =
     (case input_step_p1 s ev confirm of
        (s1, ex) \<Rightarrow> if ex then Some (cleanup s1) else queue_wait_p1 (service_timeout_p1 s1) rest)"

definition main_loop_p1 :: "AppState_p1 \<Rightarrow> Stimulus list \<Rightarrow> AppState_p1 option" where
  "main_loop_p1 s stimuli = queue_wait_p1 (service_timeout_p1 s) stimuli"

definition embraco_starter_p1 :: "Platform \<Rightarrow> Stimulus list \<Rightarrow> AppState_p1 option" where
  "embraco_starter_p1 pl stimuli = main_loop_p1 (embraco_starter_init_p1 pl) stimuli"

section \<open>Derived notions used in the statements\<close>

subsection \<open>The calls a piece of code makes\<close>

text \<open>The calls a \<open>NULL\<close>-guarded stop, free, stop-and-free or allocation of a handle makes.\<close>

definition stop_cmd :: "FuriTimer option \<Rightarrow> Cmd list" where
  "stop_cmd h = (case h of None \<Rightarrow> [] | Some t \<Rightarrow> [TimerStop (t_cb t)])"

definition free_cmd :: "FuriTimer option \<Rightarrow> Cmd list" where
  "free_cmd h = (case h of None \<Rightarrow> [] | Some t \<Rightarrow> [TimerFree (t_cb t)])"

definition release_cmd :: "FuriTimer option \<Rightarrow> Cmd list" where
  "release_cmd h = (case h of None \<Rightarrow> [] | Some t \<Rightarrow> [TimerStop (t_cb t), TimerFree (t_cb t)])"

definition alloc_cmd :: "TimerCb \<Rightarrow> FuriTimerType \<Rightarrow> FuriTimer option \<Rightarrow> Cmd list" where
  "alloc_cmd cb ty h = (case h of None \<Rightarrow> [TimerAlloc cb ty] | Some t \<Rightarrow> [])"

text \<open>The timer object behind a handle once \<open>if(!h) h = furi_timer_alloc(cb, ty, s)\<close> has run.\<close>

definition handle_or_new :: "TimerCb \<Rightarrow> FuriTimerType \<Rightarrow> FuriTimer option \<Rightarrow> FuriTimer" where
  "handle_or_new cb ty h = (case h of None \<Rightarrow> furi_timer_alloc cb ty | Some t \<Rightarrow> t)"

definition pwm_stop_cmds :: "bool \<Rightarrow> Cmd list" where
  "pwm_stop_cmds running = (if running then [PwmStop, DelayMs 1] else [])"

definition notify_cmds :: "bool \<Rightarrow> LedSeq \<Rightarrow> Cmd list" where
  "notify_cmds n q = (if n then [Notify q] else [])"

text \<open>The LED toggle period of \<open>led_apply\<close>.\<close>

definition led_ms :: "u8 \<Rightarrow> u32" where
  "led_ms blink_hz = (let ms0 = (1000 :: u32) div (ucast blink_hz * 2) in if ms0 = 0 then 1 else ms0)"

definition led_cmds :: "FuriTimer option \<Rightarrow> bool \<Rightarrow> u8 \<Rightarrow> Cmd list" where
  "led_cmds h n blink_hz =
     release_cmd h @ notify_cmds n sequence_reset_rgb
     @ (if blink_hz = 0 then []
        else [TimerAlloc LedTimerCb FuriTimerTypePeriodic, TimerStart LedTimerCb (led_ms blink_hz)])"

text \<open>The calls of \<open>arm_countdown\<close> for a duration of \<open>ms\<close> milliseconds.\<close>

definition arm_cmds :: "FuriTimer option \<Rightarrow> FuriTimer option \<Rightarrow> u32 \<Rightarrow> Cmd list" where
  "arm_cmds ht ho ms =
     alloc_cmd TickTimerCb FuriTimerTypePeriodic ht @ alloc_cmd OffTimerCb FuriTimerTypeOnce ho
     @ [TimerStart (t_cb (handle_or_new TickTimerCb FuriTimerTypePeriodic ht)) 1000,
        TimerStart (t_cb (handle_or_new OffTimerCb FuriTimerTypeOnce ho)) ms]"

text \<open>
  The calls \<open>apply_mode\<close> makes for mode \<open>m\<close> in state \<open>s\<close>, in order: the PWM stop, the
  idle level or the PWM start, the timer stops, the countdown (when \<open>cd\<close>), the LED.
\<close>

definition mode_cmds :: "Mode \<Rightarrow> bool \<Rightarrow> ('scr, 'z) AppState_scheme \<Rightarrow> Cmd list" where
  "mode_cmds m cd s =
     pwm_stop_cmds (pwm_running s)
     @ (if freq_hz m = 0 then [GpioInit GpioModeOutputPushPull, GpioWrite False]
        else [PwmStart (freq_hz m) 50])
     @ stop_cmd (tick_timer s) @ stop_cmd (off_timer s)
     @ (if cd then arm_cmds (tick_timer s) (off_timer s) (default_secs m * 1000) else [])
     @ led_cmds (led_timer s) (notif s) (led_blink_hz m)"

subsection \<open>The state after a mode is applied\<close>

text \<open>Whether \<open>start_tick_timer_if_needed\<close> arms the countdown in state \<open>s\<close>.\<close>

definition countdown_due :: "('scr, 'z) AppState_scheme \<Rightarrow> bool" where
  "countdown_due s =
     (limit_runtime s \<and> active s \<noteq> 0 \<and> default_secs (kModes ! unat (active s)) \<noteq> 0)"

definition countdown_due_p1 :: "AppState_p1 \<Rightarrow> bool" where
  "countdown_due_p1 s =
     (powered s \<and> limit_runtime s \<and> active s \<noteq> 0
      \<and> default_secs (kModes_p1 ! unat (active s)) \<noteq> 0)"

text \<open>
  The state \<open>apply_mode\<close> returns for a valid index, written as one update of the state it
  was given: \<open>m\<close> is the mode, \<open>cd\<close> whether the countdown is armed.
\<close>

definition mode_applied ::
  "Mode \<Rightarrow> bool \<Rightarrow> u8 \<Rightarrow> ('scr, 'z) AppState_scheme \<Rightarrow> ('scr, 'z) AppState_scheme" where
  "mode_applied m cd idx s =
     s\<lparr>active := idx,
       pwm_running := (freq_hz m \<noteq> 0),
       tick_timer :=
         (if cd then Some (furi_timer_start (handle_or_new TickTimerCb FuriTimerTypePeriodic (tick_timer s)) 1000)
          else map_option furi_timer_stop (tick_timer s)),
       off_timer :=
         (if cd then Some (furi_timer_start (handle_or_new OffTimerCb FuriTimerTypeOnce (off_timer s))
                             (default_secs m * 1000))
          else map_option furi_timer_stop (off_timer s)),
       remaining_ms := (if cd then default_secs m * 1000 else 0),
       timeout_expired := False,
       led_timer := (if led_blink_hz m = 0 then None
                     else Some (furi_timer_start (furi_timer_alloc LedTimerCb FuriTimerTypePeriodic)
                                  (led_ms (led_blink_hz m)))),
       led_on := False,
       plat := (plat s)
         \<lparr>pin_mode := (if freq_hz m = 0 then GpioModeOutputPushPull else pin_mode (plat s)),
          pin_level := (if freq_hz m = 0 then False else pin_level (plat s)),
          pwm_gen := (if freq_hz m = 0 then (if pwm_running s then None else pwm_gen (plat s))
                      else Some (freq_hz m, 50)),
          led_green := (if notif s then False else led_green (plat s)),
          trace := trace (plat s) @ mode_cmds m cd s\<rparr>\<rparr>"

subsection \<open>Properties of states and call sequences\<close>

text \<open>A command that drives the pin or the PWM channel.\<close>

fun is_drive :: "Cmd \<Rightarrow> bool" where
  "is_drive PwmStop = True"
| "is_drive (PwmStart f d) = True"
| "is_drive (GpioInit m) = True"
| "is_drive (GpioWrite b) = True"
| "is_drive (DelayMs n) = True"
| "is_drive c = False"

text \<open>
  \<open>no_overlap on cs\<close>: starting with the PWM generator running or not (\<open>on\<close>), the
  command sequence never starts the PWM generator or reconfigures or writes the pin
  while the generator runs, and every stop is followed at once by the 1 ms settle delay.
\<close>

fun no_overlap :: "bool \<Rightarrow> Cmd list \<Rightarrow> bool" where
  "no_overlap on [] = True"
| "no_overlap on (PwmStop # DelayMs n # cs) = (n = 1 \<and> no_overlap False cs)"
| "no_overlap on (PwmStop # cs) = False"
| "no_overlap on (PwmStart f d # cs) = (\<not> on \<and> no_overlap True cs)"
| "no_overlap on (GpioInit m # cs) = (\<not> on \<and> no_overlap on cs)"
| "no_overlap on (GpioWrite b # cs) = (\<not> on \<and> no_overlap on cs)"
| "no_overlap on (c # cs) = no_overlap on cs"

text \<open>How often a timer with callback \<open>cb\<close> was allocated in a command sequence.\<close>

fun is_alloc :: "TimerCb \<Rightarrow> Cmd \<Rightarrow> bool" where
  "is_alloc cb (TimerAlloc cb' ty) = (cb' = cb)"
| "is_alloc cb c = False"

definition alloc_count :: "TimerCb \<Rightarrow> Cmd list \<Rightarrow> nat" where
  "alloc_count cb cs = length (filter (is_alloc cb) cs)"

text \<open>How often a timer with callback \<open>cb\<close> was freed in a command sequence.\<close>

fun is_free :: "TimerCb \<Rightarrow> Cmd \<Rightarrow> bool" where
  "is_free cb (TimerFree cb') = (cb' = cb)"
| "is_free cb c = False"

definition free_count :: "TimerCb \<Rightarrow> Cmd list \<Rightarrow> nat" where
  "free_count cb cs = length (filter (is_free cb) cs)"

text \<open>
  Allocation bookkeeping: the tick and the off timer were each allocated once if their
  handle is set and never otherwise.
\<close>

definition alloc_once :: "('scr, 'z) AppState_scheme \<Rightarrow> bool" where
  "alloc_once s =
     (alloc_count TickTimerCb (trace (plat s)) = (if tick_timer s = None then 0 else 1)
      \<and> alloc_count OffTimerCb (trace (plat s)) = (if off_timer s = None then 0 else 1))"

text \<open>The state with the record of past calls dropped: what the hardware and the timers are now.\<close>

definition forget_trace :: "('scr, 'z) AppState_scheme \<Rightarrow> ('scr, 'z) AppState_scheme" where
  "forget_trace s = s\<lparr>plat := (plat s)\<lparr>trace := []\<rparr>\<rparr>"

text \<open>The software flag \<open>pwm_running\<close> mirrors the PWM generator.\<close>

definition pwm_consistent :: "('scr, 'z) AppState_scheme \<Rightarrow> bool" where
  "pwm_consistent s = (pwm_running s = (pwm_gen (plat s) \<noteq> None))"

text \<open>
  The timer handles, when set, hold the objects the application allocates for them: the
  periodic tick timer and the one-shot off timer.
\<close>

definition timers_wf :: "('scr, 'z) AppState_scheme \<Rightarrow> bool" where
  "timers_wf s =
     ((case tick_timer s of
         None \<Rightarrow> True
       | Some t \<Rightarrow> t_cb t = TickTimerCb \<and> t_type t = FuriTimerTypePeriodic)
      \<and> (case off_timer s of
            None \<Rightarrow> True
          | Some t \<Rightarrow> t_cb t = OffTimerCb \<and> t_type t = FuriTimerTypeOnce))"

text \<open>
  The state the application may return in: pin configured as input without pulls (Hi-Z),
  PWM generator off and flagged off, LED off, all four timers released.
\<close>

definition exit_safe :: "('scr, 'z) AppState_scheme \<Rightarrow> bool" where
  "exit_safe s =
     (pin_mode (plat s) = GpioModeInput \<and> pwm_gen (plat s) = None \<and> \<not> pwm_running s
      \<and> \<not> led_green (plat s) \<and> led_timer s = None \<and> hint_timer s = None
      \<and> tick_timer s = None \<and> off_timer s = None)"

subsection \<open>Scrollbar\<close>

text \<open>
  The thumb position of the scrollbar before clamping, as a 16-bit value: \<open>y0\<close> plus the
  scaled position, wrapped to 16 bits.
\<close>

definition thumb_w :: "u16 \<Rightarrow> u16 \<Rightarrow> u16" where
  "thumb_w n pos = 2 + word_of_int (uint pos * 60 div uint (scrollbar_denom n))"

fun is_box :: "Draw \<Rightarrow> bool" where
  "is_box (Box x y w h) = True"
| "is_box (Dot x y) = False"

subsection \<open>Concrete states\<close>

text \<open>The hardware as the application finds it at start: pin floating, PWM generator off.\<close>

definition boot_platform :: Platform where
  "boot_platform =
     \<lparr>pin_mode = GpioModeInput, pin_level = False, pwm_gen = None, led_green = False, trace = []\<rparr>"




text \<open>The application of \<open>src/embraco_starter.c\<close> right after start with mode 1 applied.\<close>

definition demo_low :: "ScreenId AppState" where
  "demo_low = apply_mode (embraco_starter_init boot_platform) 1"

text \<open>
  The same application on its Settings screen, and then after the user has switched the
  limit off and confirmed the dialog.
\<close>

definition demo_settings :: "ScreenId AppState" where
  "demo_settings = demo_low\<lparr>screen := ScreenSettings\<rparr>"

definition demo_unlimited :: "ScreenId AppState" where
  "demo_unlimited = fst (input_step demo_settings (InputEvent InputTypeShort InputKeyOk) True)"

section \<open>Closed forms of the state transformers\<close>

lemma MODE_COUNT_4: "MODE_COUNT = 4"
  by (simp add: MODE_COUNT_def kModes_def)

lemma start_after_stop: "furi_timer_start (furi_timer_stop t) ms = furi_timer_start t ms"
  by (simp add: furi_timer_start_def furi_timer_stop_def)

lemma stop_timers_eq:
  "stop_timers s =
     s\<lparr>tick_timer := map_option furi_timer_stop (tick_timer s),
       off_timer := map_option furi_timer_stop (off_timer s),
       plat := (plat s)\<lparr>trace := trace (plat s) @ stop_cmd (tick_timer s) @ stop_cmd (off_timer s)\<rparr>\<rparr>"
  unfolding stop_timers_def Let_def
  by (cases "tick_timer s"; cases "off_timer s") (simp_all add: stop_cmd_def emit_def)

lemma free_timers_eq:
  "free_timers s =
     s\<lparr>tick_timer := None, off_timer := None,
       plat := (plat s)\<lparr>trace := trace (plat s) @ free_cmd (tick_timer s) @ free_cmd (off_timer s)\<rparr>\<rparr>"
  unfolding free_timers_def Let_def
  by (cases "tick_timer s"; cases "off_timer s") (simp_all add: free_cmd_def emit_def)

lemma pwm_hw_stop_safe_eq:
  "pwm_hw_stop_safe s =
     s\<lparr>pwm_running := False,
       plat := (plat s)\<lparr>pwm_gen := (if pwm_running s then None else pwm_gen (plat s)),
                        trace := trace (plat s) @ pwm_stop_cmds (pwm_running s)\<rparr>\<rparr>"
  by (cases "pwm_running s")
     (simp_all add: pwm_hw_stop_safe_def pwm_stop_cmds_def furi_delay_ms_def furi_hal_pwm_stop_def emit_def)

lemma pwm_hw_start_safe_eq:
  "pwm_hw_start_safe f s =
     s\<lparr>pwm_running := True,
       plat := (plat s)\<lparr>pwm_gen := Some (f, 50), trace := trace (plat s) @ [PwmStart f 50]\<rparr>\<rparr>"
  by (simp add: pwm_hw_start_safe_def furi_hal_pwm_start_def emit_def)

lemma pin_to_hiz_eq:
  "pin_to_hiz s =
     s\<lparr>plat := (plat s)\<lparr>pin_mode := GpioModeInput, trace := trace (plat s) @ [GpioInit GpioModeInput]\<rparr>\<rparr>"
  by (simp add: pin_to_hiz_def furi_hal_gpio_init_def emit_def)

lemma pin_to_pp_low_eq:
  "pin_to_pp_low s =
     s\<lparr>plat := (plat s)\<lparr>pin_mode := GpioModeOutputPushPull, pin_level := False,
                        trace := trace (plat s) @ [GpioInit GpioModeOutputPushPull, GpioWrite False]\<rparr>\<rparr>"
  by (simp add: pin_to_pp_low_def furi_hal_gpio_init_def furi_hal_gpio_write_def emit_def)

lemma led_set_False_eq:
  "led_set False s =
     s\<lparr>plat := (plat s)\<lparr>led_green := (if notif s then False else led_green (plat s)),
                        trace := trace (plat s) @ notify_cmds (notif s) sequence_reset_rgb\<rparr>\<rparr>"
  by (cases "notif s") (simp_all add: led_set_def notification_message_def emit_def notify_cmds_def)

lemma led_apply_eq:
  "led_apply s b =
     s\<lparr>led_timer := (if b = 0 then None
                      else Some (furi_timer_start (furi_timer_alloc LedTimerCb FuriTimerTypePeriodic) (led_ms b))),
       led_on := False,
       plat := (plat s)\<lparr>led_green := (if notif s then False else led_green (plat s)),
                        trace := trace (plat s) @ led_cmds (led_timer s) (notif s) b\<rparr>\<rparr>"
  unfolding led_apply_def Let_def led_set_False_eq
  by (cases "led_timer s"; cases "b = 0")
     (simp_all add: led_cmds_def release_cmd_def emit_def led_ms_def Let_def)

lemma arm_countdown_eq:
  "arm_countdown secs s =
     s\<lparr>tick_timer := Some (furi_timer_start (handle_or_new TickTimerCb FuriTimerTypePeriodic (tick_timer s)) 1000),
       off_timer := Some (furi_timer_start (handle_or_new OffTimerCb FuriTimerTypeOnce (off_timer s)) (secs * 1000)),
       remaining_ms := secs * 1000,
       plat := (plat s)\<lparr>trace := trace (plat s) @ arm_cmds (tick_timer s) (off_timer s) (secs * 1000)\<rparr>\<rparr>"
  unfolding arm_countdown_def Let_def
  by (cases "tick_timer s"; cases "off_timer s")
     (simp_all add: arm_cmds_def alloc_cmd_def handle_or_new_def emit_def furi_timer_alloc_def)

lemma handle_start_stop:
  "furi_timer_start (handle_or_new cb ty (map_option furi_timer_stop h)) ms
     = furi_timer_start (handle_or_new cb ty h) ms"
  by (cases h) (simp_all add: handle_or_new_def start_after_stop)


lemma arm_cmds_stopped:
  "arm_cmds (map_option furi_timer_stop ht) (map_option furi_timer_stop ho) ms = arm_cmds ht ho ms"
  by (cases ht; cases ho) (simp_all add: arm_cmds_def alloc_cmd_def handle_or_new_def furi_timer_stop_def)

lemma start_tick_timer_if_needed_eq:
  "start_tick_timer_if_needed s =
     s\<lparr>tick_timer :=
         (if countdown_due s
          then Some (furi_timer_start (handle_or_new TickTimerCb FuriTimerTypePeriodic (tick_timer s)) 1000)
          else map_option furi_timer_stop (tick_timer s)),
       off_timer :=
         (if countdown_due s
          then Some (furi_timer_start (handle_or_new OffTimerCb FuriTimerTypeOnce (off_timer s))
                       (default_secs (kModes ! unat (active s)) * 1000))
          else map_option furi_timer_stop (off_timer s)),
       remaining_ms := (if countdown_due s then default_secs (kModes ! unat (active s)) * 1000 else 0),
       timeout_expired := False,
       plat := (plat s)\<lparr>trace := trace (plat s) @ stop_cmd (tick_timer s) @ stop_cmd (off_timer s)
                  @ (if countdown_due s
                     then arm_cmds (tick_timer s) (off_timer s) (default_secs (kModes ! unat (active s)) * 1000)
                     else [])\<rparr>\<rparr>"
  unfolding start_tick_timer_if_needed_def Let_def stop_timers_eq arm_countdown_eq
  by (simp add: countdown_due_def handle_start_stop arm_cmds_stopped)

lemma start_tick_timer_if_needed_p1_eq:
  "start_tick_timer_if_needed_p1 s =
     s\<lparr>tick_timer :=
         (if countdown_due_p1 s
          then Some (furi_timer_start (handle_or_new TickTimerCb FuriTimerTypePeriodic (tick_timer s)) 1000)
          else map_option furi_timer_stop (tick_timer s)),
       off_timer :=
         (if countdown_due_p1 s
          then Some (furi_timer_start (handle_or_new OffTimerCb FuriTimerTypeOnce (off_timer s))
                       (default_secs (kModes_p1 ! unat (active s)) * 1000))
          else map_option furi_timer_stop (off_timer s)),
       remaining_ms := (if countdown_due_p1 s then default_secs (kModes_p1 ! unat (active s)) * 1000 else 0),
       timeout_expired := False,
       plat := (plat s)\<lparr>trace := trace (plat s) @ stop_cmd (tick_timer s) @ stop_cmd (off_timer s)
                  @ (if countdown_due_p1 s
                     then arm_cmds (tick_timer s) (off_timer s) (default_secs (kModes_p1 ! unat (active s)) * 1000)
                     else [])\<rparr>\<rparr>"
  unfolding start_tick_timer_if_needed_p1_def Let_def stop_timers_eq arm_countdown_eq
  by (simp add: countdown_due_p1_def handle_start_stop arm_cmds_stopped)

lemma apply_mode_eq:
  assumes "unat idx < MODE_COUNT"
  shows "apply_mode s idx =
     (let m = kModes ! unat idx; cd = (freq_hz m \<noteq> 0 \<and> countdown_due (s\<lparr>active := idx\<rparr>)) in
      s\<lparr>active := idx,
        pwm_running := (freq_hz m \<noteq> 0),
        tick_timer :=
          (if cd then Some (furi_timer_start (handle_or_new TickTimerCb FuriTimerTypePeriodic (tick_timer s)) 1000)
           else map_option furi_timer_stop (tick_timer s)),
        off_timer :=
          (if cd then Some (furi_timer_start (handle_or_new OffTimerCb FuriTimerTypeOnce (off_timer s))
                              (default_secs m * 1000))
           else map_option furi_timer_stop (off_timer s)),
        remaining_ms := (if cd then default_secs m * 1000 else 0),
        timeout_expired := False,
        led_timer := (if led_blink_hz m = 0 then None
                      else Some (furi_timer_start (furi_timer_alloc LedTimerCb FuriTimerTypePeriodic)
                                   (led_ms (led_blink_hz m)))),
        led_on := False,
        plat := (plat s)
          \<lparr>pin_mode := (if freq_hz m = 0 then GpioModeOutputPushPull else pin_mode (plat s)),
           pin_level := (if freq_hz m = 0 then False else pin_level (plat s)),
           pwm_gen := (if freq_hz m = 0 then (if pwm_running s then None else pwm_gen (plat s))
                       else Some (freq_hz m, 50)),
           led_green := (if notif s then False else led_green (plat s)),
           trace := trace (plat s) @ mode_cmds m cd s\<rparr>\<rparr>)"
proof (cases "freq_hz (kModes ! unat idx) = 0")
  case True
  with assms show ?thesis
    unfolding apply_mode_def Let_def
    by (simp add: stop_timers_eq pin_to_pp_low_eq pwm_hw_stop_safe_eq led_apply_eq mode_cmds_def)
next
  case False
  with assms show ?thesis
    unfolding apply_mode_def Let_def
    by (simp add: start_tick_timer_if_needed_eq pwm_hw_start_safe_eq pwm_hw_stop_safe_eq led_apply_eq
          mode_cmds_def countdown_due_def)
qed

lemma apply_mode_p1_eq:
  assumes "unat idx < MODE_COUNT"
  shows "apply_mode_p1 s idx =
     (let m = kModes_p1 ! unat idx; cd = (freq_hz m \<noteq> 0 \<and> countdown_due_p1 (s\<lparr>active := idx\<rparr>)) in
      s\<lparr>active := idx,
        pwm_running := (freq_hz m \<noteq> 0),
        tick_timer :=
          (if cd then Some (furi_timer_start (handle_or_new TickTimerCb FuriTimerTypePeriodic (tick_timer s)) 1000)
           else map_option furi_timer_stop (tick_timer s)),
        off_timer :=
          (if cd then Some (furi_timer_start (handle_or_new OffTimerCb FuriTimerTypeOnce (off_timer s))
                              (default_secs m * 1000))
           else map_option furi_timer_stop (off_timer s)),
        remaining_ms := (if cd then default_secs m * 1000 else 0),
        timeout_expired := False,
        led_timer := (if led_blink_hz m = 0 then None
                      else Some (furi_timer_start (furi_timer_alloc LedTimerCb FuriTimerTypePeriodic)
                                   (led_ms (led_blink_hz m)))),
        led_on := False,
        plat := (plat s)
          \<lparr>pin_mode := (if freq_hz m = 0 then GpioModeOutputPushPull else pin_mode (plat s)),
           pin_level := (if freq_hz m = 0 then False else pin_level (plat s)),
           pwm_gen := (if freq_hz m = 0 then (if pwm_running s then None else pwm_gen (plat s))
                       else Some (freq_hz m, 50)),
           led_green := (if notif s then False else led_green (plat s)),
           trace := trace (plat s) @ mode_cmds m cd s\<rparr>\<rparr>)"
proof (cases "freq_hz (kModes_p1 ! unat idx) = 0")
  case True
  with assms show ?thesis
    unfolding apply_mode_p1_def Let_def
    by (simp add: stop_timers_eq pin_to_pp_low_eq pwm_hw_stop_safe_eq led_apply_eq mode_cmds_def)
next
  case False
  with assms show ?thesis
    unfolding apply_mode_p1_def Let_def
    by (simp add: start_tick_timer_if_needed_p1_eq pwm_hw_start_safe_eq pwm_hw_stop_safe_eq led_apply_eq
          mode_cmds_def countdown_due_p1_def)
qed

section \<open>Stop before drive\<close>

lemma idx_cases:
  assumes "unat (idx :: u8) < MODE_COUNT"
  shows "idx = 0 \<or> idx = 1 \<or> idx = 2 \<or> idx = 3"
proof -
  from assms have "unat idx < 4" by (simp add: MODE_COUNT_4)
  then have "unat idx = unat (0 :: u8) \<or> unat idx = unat (1 :: u8) \<or> unat idx = unat (2 :: u8)
      \<or> unat idx = unat (3 :: u8)"
    by (simp only: unsigned_0 unsigned_1 unsigned_numeral) (simp, arith)
  then show ?thesis by (simp only: word_unat_eq_iff)
qed

lemma kModes_freq_zero:
  assumes "unat (idx :: u8) < MODE_COUNT"
  shows "(freq_hz (kModes ! unat idx) = 0) = (idx = 0)"
  using idx_cases [OF assms] by (auto simp: kModes_def)


lemma no_drive_no_overlap:
  "list_all (\<lambda>c. \<not> is_drive c) cs \<Longrightarrow> no_overlap on cs"
proof (induction cs)
  case Nil
  then show ?case by simp
next
  case (Cons c cs)
  then show ?case by (cases c) simp_all
qed

lemma stop_cmd_no_drive: "list_all (\<lambda>c. \<not> is_drive c) (stop_cmd h)"
  by (cases h) (simp_all add: stop_cmd_def)

lemma arm_cmds_no_drive: "list_all (\<lambda>c. \<not> is_drive c) (arm_cmds ht ho ms)"
  by (cases ht; cases ho) (simp_all add: arm_cmds_def alloc_cmd_def)

lemma led_cmds_no_drive: "list_all (\<lambda>c. \<not> is_drive c) (led_cmds h n b)"
  by (cases h) (simp_all add: led_cmds_def release_cmd_def notify_cmds_def)

text \<open>The calls of \<open>apply_mode\<close> after the PWM stop and the new drive: timers and LED only.\<close>

lemma mode_cmds_split:
  "mode_cmds m cd s =
     pwm_stop_cmds (pwm_running s)
     @ (if freq_hz m = 0 then [GpioInit GpioModeOutputPushPull, GpioWrite False]
        else [PwmStart (freq_hz m) 50])
     @ (stop_cmd (tick_timer s) @ stop_cmd (off_timer s)
        @ (if cd then arm_cmds (tick_timer s) (off_timer s) (default_secs m * 1000) else [])
        @ led_cmds (led_timer s) (notif s) (led_blink_hz m))"
  by (simp add: mode_cmds_def)

lemma mode_rest_no_drive:
  "list_all (\<lambda>c. \<not> is_drive c)
     (stop_cmd (tick_timer s) @ stop_cmd (off_timer s)
      @ (if cd then arm_cmds (tick_timer s) (off_timer s) ms else [])
      @ led_cmds (led_timer s) (notif s) b)"
  by (simp add: stop_cmd_no_drive arm_cmds_no_drive led_cmds_no_drive)

lemma stop_then_drive_no_overlap:
  assumes "list_all (\<lambda>c. \<not> is_drive c) rest"
  shows "no_overlap r
     ((if r then [PwmStop, DelayMs 1] else [])
      @ (if z then [GpioInit GpioModeOutputPushPull, GpioWrite False] else [PwmStart f 50])
      @ rest)"
  using no_drive_no_overlap [OF assms] by (cases r; cases z) simp_all

lemma apply_mode_trace:
  assumes "unat idx < MODE_COUNT"
  shows "trace (plat (apply_mode s idx)) =
     trace (plat s)
     @ mode_cmds (kModes ! unat idx)
         (freq_hz (kModes ! unat idx) \<noteq> 0 \<and> countdown_due (s\<lparr>active := idx\<rparr>)) s"
  by (simp add: apply_mode_eq [OF assms] Let_def)

lemma apply_mode_pwm:
  assumes "unat idx < MODE_COUNT"
  shows "pwm_running (apply_mode s idx) = (idx \<noteq> 0)"
    and "pwm_gen (plat (apply_mode s idx)) =
      (if idx = 0 then (if pwm_running s then None else pwm_gen (plat s))
       else Some (freq_hz (kModes ! unat idx), 50))"
  by (simp_all add: apply_mode_eq [OF assms] Let_def kModes_freq_zero [OF assms])

lemma apply_mode_consistent:
  assumes "pwm_consistent s"
  shows "pwm_consistent (apply_mode s idx)"
proof (cases "unat idx < MODE_COUNT")
  case True
  with assms show ?thesis
    by (auto simp: pwm_consistent_def apply_mode_pwm [OF True])
next
  case False
  with assms show ?thesis by (simp add: apply_mode_def)
qed

text \<open>
  C1. For every valid index and every state whose \<open>pwm_running\<close> flag mirrors the PWM
  generator, the calls \<open>apply_mode\<close> makes are, in order: \<open>furi_hal_pwm_stop\<close> and the 1 ms
  delay if and only if PWM was running; then the push-pull configuration and the low
  level (index 0) or the PWM start at the new mode's frequency with 50 percent duty;
  then only timer and LED calls. The sequence never starts the generator, configures or
  writes the pin while the generator runs, and the flag mirrors the generator
  afterwards. This holds for every previous mode, equal to the new one or not.
\<close>

theorem apply_mode_stop_before_drive:
  assumes "unat idx < MODE_COUNT" and "pwm_consistent s"
  shows "\<exists>rest.
     trace (plat (apply_mode s idx)) =
       trace (plat s)
       @ (if pwm_running s then [PwmStop, DelayMs 1] else [])
       @ (if idx = 0 then [GpioInit GpioModeOutputPushPull, GpioWrite False]
          else [PwmStart (freq_hz (kModes ! unat idx)) 50])
       @ rest
     \<and> list_all (\<lambda>c. \<not> is_drive c) rest
     \<and> no_overlap (pwm_gen (plat s) \<noteq> None)
          ((if pwm_running s then [PwmStop, DelayMs 1] else [])
           @ (if idx = 0 then [GpioInit GpioModeOutputPushPull, GpioWrite False]
              else [PwmStart (freq_hz (kModes ! unat idx)) 50])
           @ rest)
     \<and> pwm_consistent (apply_mode s idx)
     \<and> pwm_gen (plat (apply_mode s idx)) =
         (if idx = 0 then None else Some (freq_hz (kModes ! unat idx), 50))"
proof -
  define m where "m = kModes ! unat idx"
  define cd where "cd = (freq_hz m \<noteq> 0 \<and> countdown_due (s\<lparr>active := idx\<rparr>))"
  define rest where "rest =
     stop_cmd (tick_timer s) @ stop_cmd (off_timer s)
     @ (if cd then arm_cmds (tick_timer s) (off_timer s) (default_secs m * 1000) else [])
     @ led_cmds (led_timer s) (notif s) (led_blink_hz m)"
  have z: "(freq_hz m = 0) = (idx = 0)"
    unfolding m_def by (rule kModes_freq_zero [OF assms(1)])
  have nd: "list_all (\<lambda>c. \<not> is_drive c) rest"
    unfolding rest_def by (rule mode_rest_no_drive)
  have tr: "trace (plat (apply_mode s idx)) =
       trace (plat s)
       @ (if pwm_running s then [PwmStop, DelayMs 1] else [])
       @ (if idx = 0 then [GpioInit GpioModeOutputPushPull, GpioWrite False]
          else [PwmStart (freq_hz (kModes ! unat idx)) 50])
       @ rest"
    unfolding apply_mode_trace [OF assms(1)] mode_cmds_split
    by (simp add: m_def [symmetric] cd_def rest_def z pwm_stop_cmds_def)
  have on: "(pwm_gen (plat s) \<noteq> None) = pwm_running s"
    using assms(2) by (simp add: pwm_consistent_def)
  have ov: "no_overlap (pwm_gen (plat s) \<noteq> None)
          ((if pwm_running s then [PwmStop, DelayMs 1] else [])
           @ (if idx = 0 then [GpioInit GpioModeOutputPushPull, GpioWrite False]
              else [PwmStart (freq_hz (kModes ! unat idx)) 50])
           @ rest)"
    unfolding on by (rule stop_then_drive_no_overlap [OF nd])
  have co: "pwm_consistent (apply_mode s idx)"
    by (rule apply_mode_consistent [OF assms(2)])
  have pg: "pwm_gen (plat (apply_mode s idx)) =
         (if idx = 0 then None else Some (freq_hz (kModes ! unat idx), 50))"
  proof (cases "pwm_running s")
    case True
    then show ?thesis by (simp add: apply_mode_pwm(2) [OF assms(1)])
  next
    case False
    with on have "pwm_gen (plat s) = None" by (cases "pwm_gen (plat s)") simp_all
    with False show ?thesis by (simp add: apply_mode_pwm(2) [OF assms(1)])
  qed
  from tr nd ov co pg show ?thesis by blast
qed

lemma init_consistent: "pwm_gen pl = None \<Longrightarrow> pwm_consistent (embraco_starter_init pl)"
  by (simp add: pwm_consistent_def embraco_starter_init_def led_apply_eq pin_to_hiz_eq)

lemma one_valid: "unat (1 :: u8) < MODE_COUNT" and two_valid: "unat (2 :: u8) < MODE_COUNT"
  by (simp_all add: MODE_COUNT_4)

lemma demo_low_facts:
  "pwm_consistent demo_low" "pwm_running demo_low" "active demo_low = 1"
proof -
  have "pwm_gen boot_platform = None" by (simp add: boot_platform_def)
  then have "pwm_consistent (embraco_starter_init boot_platform)" by (rule init_consistent)
  then show "pwm_consistent demo_low"
    unfolding demo_low_def by (rule apply_mode_consistent)
  show "pwm_running demo_low"
    unfolding demo_low_def by (simp add: apply_mode_pwm(1) [OF one_valid])
  show "active demo_low = 1"
    unfolding demo_low_def by (simp add: apply_mode_eq [OF one_valid] Let_def)
qed

theorem apply_mode_stop_before_drive_witness:
  "unat (2 :: u8) < MODE_COUNT \<and> pwm_consistent demo_low \<and> active demo_low = 1
   \<and> (\<exists>rest. trace (plat (apply_mode demo_low 2)) =
         trace (plat demo_low) @ [PwmStop, DelayMs 1] @ [PwmStart 100 50] @ rest
       \<and> list_all (\<lambda>c. \<not> is_drive c) rest)
   \<and> pwm_gen (plat (apply_mode demo_low 2)) = Some (100, 50)"
proof -
  have f: "freq_hz (kModes ! unat (2 :: u8)) = 100" by (simp add: kModes_def)
  from apply_mode_stop_before_drive [OF two_valid demo_low_facts(1)]
  obtain rest where r: "trace (plat (apply_mode demo_low 2)) =
         trace (plat demo_low) @ [PwmStop, DelayMs 1] @ [PwmStart 100 50] @ rest"
      "list_all (\<lambda>c. \<not> is_drive c) rest"
      "pwm_gen (plat (apply_mode demo_low 2)) = Some (100, 50)"
    using demo_low_facts(2) f by auto
  then have "\<exists>rest. trace (plat (apply_mode demo_low 2)) =
         trace (plat demo_low) @ [PwmStop, DelayMs 1] @ [PwmStart 100 50] @ rest
       \<and> list_all (\<lambda>c. \<not> is_drive c) rest"
    by blast
  with two_valid demo_low_facts(1,3) r(3) show ?thesis by blast
qed

section \<open>Applying the same mode twice\<close>

lemma handle_or_new_Some: "handle_or_new cb ty (Some t) = t"
  by (simp add: handle_or_new_def)

lemma start_start: "furi_timer_start (furi_timer_start t a) b = furi_timer_start t b"
  by (simp add: furi_timer_start_def)

lemma stop_stop: "map_option furi_timer_stop (map_option furi_timer_stop h) = map_option furi_timer_stop h"
  by (cases h) (simp_all add: furi_timer_stop_def)

lemma countdown_due_active:
  "countdown_due (s\<lparr>active := idx\<rparr>) =
     (limit_runtime s \<and> idx \<noteq> 0 \<and> default_secs (kModes ! unat idx) \<noteq> 0)"
  by (simp add: countdown_due_def)

lemma apply_mode_applied:
  assumes "unat idx < MODE_COUNT"
  shows "apply_mode s idx =
     mode_applied (kModes ! unat idx)
       (freq_hz (kModes ! unat idx) \<noteq> 0 \<and> limit_runtime s \<and> idx \<noteq> 0
        \<and> default_secs (kModes ! unat idx) \<noteq> 0) idx s"
  by (simp add: apply_mode_eq [OF assms] Let_def mode_applied_def countdown_due_active)

lemma mode_applied_limit: "limit_runtime (mode_applied m cd idx s) = limit_runtime s"
  by (simp add: mode_applied_def)

lemma mode_applied_twice:
  "forget_trace (mode_applied m cd idx (mode_applied m cd idx s)) = forget_trace (mode_applied m cd idx s)"
  by (cases cd; cases "freq_hz m = 0")
     (simp_all add: mode_applied_def forget_trace_def handle_or_new_Some start_start stop_stop)

lemma apply_mode_twice:
  assumes "unat idx < MODE_COUNT"
  shows "forget_trace (apply_mode (apply_mode s idx) idx) = forget_trace (apply_mode s idx)"
  by (simp only: apply_mode_applied [OF assms] mode_applied_limit mode_applied_twice)

lemma alloc_count_append: "alloc_count cb (xs @ ys) = alloc_count cb xs + alloc_count cb ys"
  by (simp add: alloc_count_def)

lemma alloc_count_stop_cmd: "alloc_count cb (stop_cmd h) = 0"
  by (cases h) (simp_all add: alloc_count_def stop_cmd_def)

lemma alloc_count_pwm_stop: "alloc_count cb (pwm_stop_cmds r) = 0"
  by (simp add: alloc_count_def pwm_stop_cmds_def)

lemma alloc_count_led_cmds: "cb \<noteq> LedTimerCb \<Longrightarrow> alloc_count cb (led_cmds h n b) = 0"
  by (cases h) (simp_all add: alloc_count_def led_cmds_def release_cmd_def notify_cmds_def)

lemma alloc_count_arm_cmds:
  "alloc_count TickTimerCb (arm_cmds ht ho ms) = (if ht = None then 1 else 0)"
  "alloc_count OffTimerCb (arm_cmds ht ho ms) = (if ho = None then 1 else 0)"
  by (cases ht; cases ho; simp add: alloc_count_def arm_cmds_def alloc_cmd_def)+

lemma alloc_count_mode_cmds:
  "alloc_count TickTimerCb (mode_cmds m cd s) = (if cd \<and> tick_timer s = None then 1 else 0)"
  "alloc_count OffTimerCb (mode_cmds m cd s) = (if cd \<and> off_timer s = None then 1 else 0)"
  by (simp_all add: mode_cmds_def alloc_count_append alloc_count_stop_cmd alloc_count_pwm_stop
        alloc_count_led_cmds alloc_count_arm_cmds)
     (simp_all add: alloc_count_def)

lemma mode_applied_alloc:
  "alloc_count TickTimerCb (trace (plat (mode_applied m cd idx s)))
     = alloc_count TickTimerCb (trace (plat s)) + (if cd \<and> tick_timer s = None then 1 else 0)"
  "alloc_count OffTimerCb (trace (plat (mode_applied m cd idx s)))
     = alloc_count OffTimerCb (trace (plat s)) + (if cd \<and> off_timer s = None then 1 else 0)"
  by (simp_all add: mode_applied_def alloc_count_append alloc_count_mode_cmds)

lemma mode_applied_handles:
  "(tick_timer (mode_applied m cd idx s) = None) = (\<not> cd \<and> tick_timer s = None)"
  "(off_timer (mode_applied m cd idx s) = None) = (\<not> cd \<and> off_timer s = None)"
  by (simp_all add: mode_applied_def)

lemma mode_applied_alloc_once: "alloc_once s \<Longrightarrow> alloc_once (mode_applied m cd idx s)"
  by (simp add: alloc_once_def mode_applied_alloc mode_applied_handles)

lemma apply_mode_alloc_once: "alloc_once s \<Longrightarrow> alloc_once (apply_mode s idx)"
proof (cases "unat idx < MODE_COUNT")
  case True
  assume "alloc_once s"
  then show ?thesis
    by (simp only: apply_mode_applied [OF True] mode_applied_alloc_once)
next
  case False
  assume "alloc_once s"
  with False show ?thesis by (simp add: apply_mode_def)
qed

lemma foldl_apply_mode_alloc_once: "alloc_once s \<Longrightarrow> alloc_once (foldl apply_mode s idxs)"
  by (induction idxs arbitrary: s) (simp_all add: apply_mode_alloc_once)

lemma init_alloc_once: "trace pl = [] \<Longrightarrow> alloc_once (embraco_starter_init pl)"
  by (simp add: alloc_once_def embraco_starter_init_def led_apply_eq pin_to_hiz_eq alloc_count_def
        led_cmds_def release_cmd_def notify_cmds_def)

lemma apply_mode_second_alloc:
  assumes "unat idx < MODE_COUNT"
  shows "alloc_count TickTimerCb (trace (plat (apply_mode (apply_mode s idx) idx)))
           = alloc_count TickTimerCb (trace (plat (apply_mode s idx)))"
    and "alloc_count OffTimerCb (trace (plat (apply_mode (apply_mode s idx) idx)))
           = alloc_count OffTimerCb (trace (plat (apply_mode s idx)))"
  by (simp_all only: apply_mode_applied [OF assms] mode_applied_limit mode_applied_alloc
        mode_applied_handles)
     auto

lemma free_count_append: "free_count cb (xs @ ys) = free_count cb xs + free_count cb ys"
  by (simp add: free_count_def)

lemma led_counts_mode_cmds:
  "alloc_count LedTimerCb (mode_cmds m cd s) = (if led_blink_hz m = 0 then 0 else 1)"
  "free_count LedTimerCb (mode_cmds m cd s) =
     (case led_timer s of None \<Rightarrow> 0 | Some t \<Rightarrow> if t_cb t = LedTimerCb then 1 else 0)"
  by (cases "tick_timer s"; cases "off_timer s"; cases "led_timer s";
      simp add: mode_cmds_def alloc_count_def free_count_def pwm_stop_cmds_def stop_cmd_def
        arm_cmds_def alloc_cmd_def led_cmds_def release_cmd_def notify_cmds_def)+

lemma mode_applied_led:
  "led_timer (mode_applied m cd idx s) =
     (if led_blink_hz m = 0 then None
      else Some (furi_timer_start (furi_timer_alloc LedTimerCb FuriTimerTypePeriodic)
                   (led_ms (led_blink_hz m))))"
  "trace (plat (mode_applied m cd idx s)) = trace (plat s) @ mode_cmds m cd s"
  by (simp_all add: mode_applied_def)

lemma apply_mode_second_led:
  assumes "unat idx < MODE_COUNT"
  shows "alloc_count LedTimerCb (trace (plat (apply_mode (apply_mode s idx) idx)))
           - alloc_count LedTimerCb (trace (plat (apply_mode s idx)))
         = free_count LedTimerCb (trace (plat (apply_mode (apply_mode s idx) idx)))
           - free_count LedTimerCb (trace (plat (apply_mode s idx)))"
  by (simp only: apply_mode_applied [OF assms] mode_applied_limit mode_applied_led
        alloc_count_append free_count_append led_counts_mode_cmds)
     (simp add: furi_timer_start_def furi_timer_alloc_def)

text \<open>
  C8. For a valid index, applying the mode a second time right after the first leaves
  every field of the state, the hardware and the timers as the first application left
  them (only the record of calls grows: the PWM is stopped and restarted, the timers
  are stopped and started again at the full duration, the LED timer is replaced by an
  equal one). The second application allocates no tick and no off timer, and it frees as
  many LED timers as it allocates. Over any
  sequence of \<open>apply_mode\<close> calls after a fresh start, each of the two timers is
  allocated at most once.
\<close>

theorem apply_mode_idempotent:
  assumes "unat idx < MODE_COUNT" and "trace pl = []"
  shows "forget_trace (apply_mode (apply_mode s idx) idx) = forget_trace (apply_mode s idx)
     \<and> alloc_count TickTimerCb (trace (plat (apply_mode (apply_mode s idx) idx)))
         = alloc_count TickTimerCb (trace (plat (apply_mode s idx)))
     \<and> alloc_count OffTimerCb (trace (plat (apply_mode (apply_mode s idx) idx)))
         = alloc_count OffTimerCb (trace (plat (apply_mode s idx)))
     \<and> alloc_count LedTimerCb (trace (plat (apply_mode (apply_mode s idx) idx)))
           - alloc_count LedTimerCb (trace (plat (apply_mode s idx)))
         = free_count LedTimerCb (trace (plat (apply_mode (apply_mode s idx) idx)))
           - free_count LedTimerCb (trace (plat (apply_mode s idx)))
     \<and> alloc_count TickTimerCb (trace (plat (foldl apply_mode (embraco_starter_init pl) idxs))) \<le> 1
     \<and> alloc_count OffTimerCb (trace (plat (foldl apply_mode (embraco_starter_init pl) idxs))) \<le> 1"
proof -
  have "alloc_once (foldl apply_mode (embraco_starter_init pl) idxs)"
    by (rule foldl_apply_mode_alloc_once [OF init_alloc_once [OF assms(2)]])
  then have le:
    "alloc_count TickTimerCb (trace (plat (foldl apply_mode (embraco_starter_init pl) idxs))) \<le> 1"
    "alloc_count OffTimerCb (trace (plat (foldl apply_mode (embraco_starter_init pl) idxs))) \<le> 1"
    by (simp_all add: alloc_once_def)
  from apply_mode_twice [OF assms(1), of s] apply_mode_second_alloc [OF assms(1), of s]
    apply_mode_second_led [OF assms(1), of s] le
  show ?thesis by (intro conjI)
qed

theorem apply_mode_idempotent_witness:
  "unat (1 :: u8) < MODE_COUNT \<and> trace boot_platform = []
   \<and> forget_trace (apply_mode demo_low 1) = forget_trace demo_low
   \<and> alloc_count TickTimerCb (trace (plat demo_low)) = 1
   \<and> alloc_count TickTimerCb (trace (plat (apply_mode demo_low 1))) = 1
   \<and> alloc_count OffTimerCb (trace (plat (apply_mode demo_low 1))) = 1
   \<and> alloc_count TickTimerCb
        (trace (plat (foldl apply_mode (embraco_starter_init boot_platform) [1, 1, 2, 0, 3]))) \<le> 1"
proof -
  have t: "trace boot_platform = []" by (simp add: boot_platform_def)
  note T = apply_mode_idempotent [OF one_valid t, of "embraco_starter_init boot_platform"
      "[1, 1, 2, 0, 3]"]
  have i: "alloc_once (embraco_starter_init boot_platform)"
    by (rule init_alloc_once [OF t])
  have n: "tick_timer (embraco_starter_init boot_platform) = None"
    "off_timer (embraco_starter_init boot_platform) = None"
    "limit_runtime (embraco_starter_init boot_platform)"
    by (simp_all add: embraco_starter_init_def led_apply_eq pin_to_hiz_eq)
  have a: "alloc_count TickTimerCb (trace (plat demo_low)) = 1"
    "alloc_count OffTimerCb (trace (plat demo_low)) = 1"
    unfolding demo_low_def
    using i n
    by (simp_all only: apply_mode_applied [OF one_valid] mode_applied_alloc alloc_once_def)
       (simp_all add: kModes_def)
  from T a one_valid t show ?thesis
    unfolding demo_low_def by simp
qed

section \<open>The countdown and the automatic return to idle\<close>

lemma kModes_secs:
  assumes "unat (idx :: u8) < MODE_COUNT" and "idx \<noteq> 0"
  shows "default_secs (kModes ! unat idx) \<noteq> 0"
    and "unat (default_secs (kModes ! unat idx) * 1000) = unat (default_secs (kModes ! unat idx)) * 1000"
    and "unat (default_secs (kModes ! unat idx)) \<le> 120"
  using idx_cases [OF assms(1)] assms(2) by (auto simp: kModes_def)

lemma apply_mode_armed:
  assumes "unat idx < MODE_COUNT" and "idx \<noteq> 0" and "limit_runtime s" and "timers_wf s"
  shows "off_timer (apply_mode s idx) =
           Some \<lparr>t_cb = OffTimerCb, t_type = FuriTimerTypeOnce, t_running = True,
                 t_ticks = default_secs (kModes ! unat idx) * 1000\<rparr>"
    and "tick_timer (apply_mode s idx) =
           Some \<lparr>t_cb = TickTimerCb, t_type = FuriTimerTypePeriodic, t_running = True, t_ticks = 1000\<rparr>"
    and "remaining_ms (apply_mode s idx) = default_secs (kModes ! unat idx) * 1000"
    and "\<not> timeout_expired (apply_mode s idx)"
    and "pwm_running (apply_mode s idx)"
    and "active (apply_mode s idx) = idx"
proof -
  have cd: "freq_hz (kModes ! unat idx) \<noteq> 0 \<and> limit_runtime s \<and> idx \<noteq> 0
      \<and> default_secs (kModes ! unat idx) \<noteq> 0"
    using assms kModes_secs(1) [OF assms(1,2)] kModes_freq_zero [OF assms(1)] by simp
  have off: "furi_timer_start (handle_or_new OffTimerCb FuriTimerTypeOnce (off_timer s)) ms =
      \<lparr>t_cb = OffTimerCb, t_type = FuriTimerTypeOnce, t_running = True, t_ticks = ms\<rparr>" for ms
    using assms(4)
    by (cases "off_timer s")
       (simp_all add: timers_wf_def handle_or_new_def furi_timer_start_def furi_timer_alloc_def)
  have tick: "furi_timer_start (handle_or_new TickTimerCb FuriTimerTypePeriodic (tick_timer s)) ms =
      \<lparr>t_cb = TickTimerCb, t_type = FuriTimerTypePeriodic, t_running = True, t_ticks = ms\<rparr>" for ms
    using assms(4)
    by (cases "tick_timer s")
       (simp_all add: timers_wf_def handle_or_new_def furi_timer_start_def furi_timer_alloc_def)
  show "off_timer (apply_mode s idx) =
           Some \<lparr>t_cb = OffTimerCb, t_type = FuriTimerTypeOnce, t_running = True,
                 t_ticks = default_secs (kModes ! unat idx) * 1000\<rparr>"
    and "tick_timer (apply_mode s idx) =
           Some \<lparr>t_cb = TickTimerCb, t_type = FuriTimerTypePeriodic, t_running = True, t_ticks = 1000\<rparr>"
    and "remaining_ms (apply_mode s idx) = default_secs (kModes ! unat idx) * 1000"
    and "\<not> timeout_expired (apply_mode s idx)"
    and "pwm_running (apply_mode s idx)"
    and "active (apply_mode s idx) = idx"
    using cd by (simp_all add: apply_mode_applied [OF assms(1)] mode_applied_def off tick)
qed

lemma off_fired:
  assumes "off_timer s = Some t" and "t_running t" and "t_type t = FuriTimerTypeOnce"
  shows "timer_fired OffTimerCb s =
           s\<lparr>off_timer := Some (t\<lparr>t_running := False\<rparr>), remaining_ms := 0, timeout_expired := True\<rparr>"
  using assms by (simp add: timer_fired_def off_timer_cb_def after_fire_def)





lemma service_timeout_expired:
  assumes "timeout_expired s"
  shows "service_timeout s =
     (mode_applied (kModes ! 0) False 0 (s\<lparr>timeout_expired := False\<rparr>))\<lparr>cursor := 0, first_visible := 0\<rparr>"
proof -
  have z: "unat (0 :: u8) < MODE_COUNT" by (simp add: MODE_COUNT_4)
  show ?thesis
    using assms by (simp add: service_timeout_def apply_mode_applied [OF z])
qed

text \<open>
  The timer handles hold the objects the application allocates for them in every state
  it reaches: the start state has none, and neither \<open>apply_mode\<close> nor a callback replaces
  one by another kind of timer.
\<close>

lemma timers_wf_timer_fired: "timers_wf s \<Longrightarrow> timers_wf (timer_fired cb s)"
  by (cases cb)
     (auto simp: timers_wf_def timer_fired_def led_timer_cb_def tick_timer_cb_def off_timer_cb_def
        hint_timer_cb_def led_set_def after_fire_def Let_def split: option.splits)

lemma timers_wf_apply_mode: "timers_wf s \<Longrightarrow> timers_wf (apply_mode s idx)"
proof (cases "unat idx < MODE_COUNT")
  case True
  assume "timers_wf s"
  then show ?thesis
    by (auto simp: apply_mode_applied [OF True] mode_applied_def timers_wf_def handle_or_new_def
          furi_timer_start_def furi_timer_stop_def furi_timer_alloc_def split: option.splits)
next
  case False
  assume "timers_wf s"
  with False show ?thesis by (simp add: apply_mode_def)
qed


lemma init_fields:
  "limit_runtime (embraco_starter_init pl)" "timers_wf (embraco_starter_init pl)"
  "screen (embraco_starter_init pl) = ScreenHelp" "active (embraco_starter_init pl) = 0"
  "\<not> pwm_running (embraco_starter_init pl)" "\<not> timeout_expired (embraco_starter_init pl)"
  by (simp_all add: embraco_starter_init_def led_apply_eq pin_to_hiz_eq timers_wf_def)


section \<open>Toggling the runtime limit in Settings\<close>

lemma settings_limit_off:
  assumes "screen s = ScreenSettings" and "limit_runtime s"
  shows "input_step s (InputEvent InputTypeShort InputKeyOk) True =
           (s\<lparr>limit_runtime := False,
              tick_timer := map_option furi_timer_stop (tick_timer s),
              off_timer := map_option furi_timer_stop (off_timer s),
              remaining_ms := 0,
              plat := (plat s)\<lparr>trace := trace (plat s) @ stop_cmd (tick_timer s)
                                        @ stop_cmd (off_timer s)\<rparr>\<rparr>, False)"
    and "input_step s (InputEvent InputTypeShort InputKeyOk) False = (s, False)"
  using assms by (simp_all add: input_step_def settings_input_def stop_timers_eq)

lemma settings_limit_on:
  assumes "screen s = ScreenSettings" and "\<not> limit_runtime s" and "active s \<noteq> 0"
    and "unat (active s) < MODE_COUNT" and "timers_wf s"
  shows "input_step s (InputEvent InputTypeShort InputKeyOk) c =
           (s\<lparr>limit_runtime := True,
              tick_timer := Some \<lparr>t_cb = TickTimerCb, t_type = FuriTimerTypePeriodic,
                                  t_running = True, t_ticks = 1000\<rparr>,
              off_timer := Some \<lparr>t_cb = OffTimerCb, t_type = FuriTimerTypeOnce, t_running = True,
                                 t_ticks = default_secs (kModes ! unat (active s)) * 1000\<rparr>,
              remaining_ms := default_secs (kModes ! unat (active s)) * 1000,
              timeout_expired := False,
              plat := (plat s)\<lparr>trace := trace (plat s) @ stop_cmd (tick_timer s)
                  @ stop_cmd (off_timer s)
                  @ arm_cmds (tick_timer s) (off_timer s)
                      (default_secs (kModes ! unat (active s)) * 1000)\<rparr>\<rparr>, False)"
proof -
  have cd: "countdown_due (s\<lparr>limit_runtime := True\<rparr>)"
    using assms(3) kModes_secs(1) [OF assms(4,3)] by (simp add: countdown_due_def)
  have off: "furi_timer_start (handle_or_new OffTimerCb FuriTimerTypeOnce (off_timer s)) ms =
      \<lparr>t_cb = OffTimerCb, t_type = FuriTimerTypeOnce, t_running = True, t_ticks = ms\<rparr>" for ms
    using assms(5)
    by (cases "off_timer s")
       (simp_all add: timers_wf_def handle_or_new_def furi_timer_start_def furi_timer_alloc_def)
  have tick: "furi_timer_start (handle_or_new TickTimerCb FuriTimerTypePeriodic (tick_timer s)) ms =
      \<lparr>t_cb = TickTimerCb, t_type = FuriTimerTypePeriodic, t_running = True, t_ticks = ms\<rparr>" for ms
    using assms(5)
    by (cases "tick_timer s")
       (simp_all add: timers_wf_def handle_or_new_def furi_timer_start_def furi_timer_alloc_def)
  show ?thesis
    using assms(1,2,3) cd
    by (simp add: input_step_def settings_input_def Let_def start_tick_timer_if_needed_eq off tick)
qed

lemma settings_limit_on_idle:
  assumes "screen s = ScreenSettings" and "\<not> limit_runtime s" and "active s = 0"
  shows "input_step s (InputEvent InputTypeShort InputKeyOk) c = (s\<lparr>limit_runtime := True\<rparr>, False)"
  using assms by (simp add: input_step_def settings_input_def Let_def)

text \<open>
  C3. On the Settings screen of \<open>src/embraco_starter.c\<close>, a short OK with the limit
  enabled and the dialog confirmed clears \<open>limit_runtime\<close>, stops the tick and the off
  timer (if allocated) and sets \<open>remaining_ms\<close> to 0, whatever mode is active; the mode,
  the PWM and the pin are untouched; with the dialog cancelled nothing changes. A short
  OK with the limit disabled and a non-idle mode active sets \<open>limit_runtime\<close> and starts
  both timers afresh: the off timer and \<open>remaining_ms\<close> get the active mode's full
  \<open>default_secs * 1000\<close>, whatever \<open>remaining_ms\<close> held before; no dialog is involved.
\<close>

theorem settings_limit_toggle:
  "(screen s = ScreenSettings \<and> limit_runtime s \<longrightarrow>
      (\<exists>s1. input_step s (InputEvent InputTypeShort InputKeyOk) True = (s1, False)
         \<and> \<not> limit_runtime s1 \<and> remaining_ms s1 = 0
         \<and> tick_timer s1 = map_option furi_timer_stop (tick_timer s)
         \<and> off_timer s1 = map_option furi_timer_stop (off_timer s)
         \<and> (case tick_timer s1 of None \<Rightarrow> True | Some t \<Rightarrow> \<not> t_running t)
         \<and> (case off_timer s1 of None \<Rightarrow> True | Some t \<Rightarrow> \<not> t_running t)
         \<and> active s1 = active s \<and> pwm_running s1 = pwm_running s
         \<and> pwm_gen (plat s1) = pwm_gen (plat s) \<and> pin_mode (plat s1) = pin_mode (plat s)
         \<and> screen s1 = ScreenSettings)
      \<and> input_step s (InputEvent InputTypeShort InputKeyOk) False = (s, False))
   \<and> (screen s = ScreenSettings \<and> \<not> limit_runtime s \<and> active s \<noteq> 0
        \<and> unat (active s) < MODE_COUNT \<and> timers_wf s \<longrightarrow>
      (\<exists>s1. input_step s (InputEvent InputTypeShort InputKeyOk) c = (s1, False)
         \<and> limit_runtime s1
         \<and> remaining_ms s1 = default_secs (kModes ! unat (active s)) * 1000
         \<and> unat (remaining_ms s1) = unat (default_secs (kModes ! unat (active s))) * 1000
         \<and> off_timer s1 = Some \<lparr>t_cb = OffTimerCb, t_type = FuriTimerTypeOnce, t_running = True,
                                  t_ticks = default_secs (kModes ! unat (active s)) * 1000\<rparr>
         \<and> tick_timer s1 = Some \<lparr>t_cb = TickTimerCb, t_type = FuriTimerTypePeriodic,
                                   t_running = True, t_ticks = 1000\<rparr>
         \<and> \<not> timeout_expired s1
         \<and> active s1 = active s \<and> pwm_running s1 = pwm_running s
         \<and> pwm_gen (plat s1) = pwm_gen (plat s)))"
proof (intro conjI impI)
  assume a: "screen s = ScreenSettings \<and> limit_runtime s"
  then have s: "screen s = ScreenSettings" and l: "limit_runtime s" by simp_all
  show "\<exists>s1. input_step s (InputEvent InputTypeShort InputKeyOk) True = (s1, False)
         \<and> \<not> limit_runtime s1 \<and> remaining_ms s1 = 0
         \<and> tick_timer s1 = map_option furi_timer_stop (tick_timer s)
         \<and> off_timer s1 = map_option furi_timer_stop (off_timer s)
         \<and> (case tick_timer s1 of None \<Rightarrow> True | Some t \<Rightarrow> \<not> t_running t)
         \<and> (case off_timer s1 of None \<Rightarrow> True | Some t \<Rightarrow> \<not> t_running t)
         \<and> active s1 = active s \<and> pwm_running s1 = pwm_running s
         \<and> pwm_gen (plat s1) = pwm_gen (plat s) \<and> pin_mode (plat s1) = pin_mode (plat s)
         \<and> screen s1 = ScreenSettings"
    unfolding settings_limit_off(1) [OF s l]
    by (rule exI, intro conjI, rule refl)
       (simp_all add: s furi_timer_stop_def split: option.split)
  show "input_step s (InputEvent InputTypeShort InputKeyOk) False = (s, False)"
    by (rule settings_limit_off(2) [OF s l])
next
  assume b: "screen s = ScreenSettings \<and> \<not> limit_runtime s \<and> active s \<noteq> 0
        \<and> unat (active s) < MODE_COUNT \<and> timers_wf s"
  then have h: "screen s = ScreenSettings" "\<not> limit_runtime s" "active s \<noteq> 0"
    "unat (active s) < MODE_COUNT" "timers_wf s"
    by simp_all
  show "\<exists>s1. input_step s (InputEvent InputTypeShort InputKeyOk) c = (s1, False)
         \<and> limit_runtime s1
         \<and> remaining_ms s1 = default_secs (kModes ! unat (active s)) * 1000
         \<and> unat (remaining_ms s1) = unat (default_secs (kModes ! unat (active s))) * 1000
         \<and> off_timer s1 = Some \<lparr>t_cb = OffTimerCb, t_type = FuriTimerTypeOnce, t_running = True,
                                  t_ticks = default_secs (kModes ! unat (active s)) * 1000\<rparr>
         \<and> tick_timer s1 = Some \<lparr>t_cb = TickTimerCb, t_type = FuriTimerTypePeriodic,
                                   t_running = True, t_ticks = 1000\<rparr>
         \<and> \<not> timeout_expired s1
         \<and> active s1 = active s \<and> pwm_running s1 = pwm_running s
         \<and> pwm_gen (plat s1) = pwm_gen (plat s)"
    unfolding settings_limit_on [OF h]
    by (rule exI, intro conjI, rule refl) (simp_all add: kModes_secs(2) [OF h(4,3)])
qed

lemma demo_low_countdown:
  "limit_runtime demo_low" "timers_wf demo_low" "remaining_ms demo_low = 120000"
  "off_timer demo_low = Some \<lparr>t_cb = OffTimerCb, t_type = FuriTimerTypeOnce, t_running = True,
                                t_ticks = 120000\<rparr>"
  "tick_timer demo_low = Some \<lparr>t_cb = TickTimerCb, t_type = FuriTimerTypePeriodic,
                                 t_running = True, t_ticks = 1000\<rparr>"
proof -
  have ne: "(1 :: u8) \<noteq> 0" by simp
  have S: "default_secs (kModes ! unat (1 :: u8)) = 120" by (simp add: kModes_def)
  note A = apply_mode_armed [OF one_valid ne init_fields(1,2) [of boot_platform],
      folded demo_low_def, unfolded S]
  show "limit_runtime demo_low"
    unfolding demo_low_def
    by (simp only: apply_mode_applied [OF one_valid] mode_applied_limit init_fields(1))
  show "remaining_ms demo_low = 120000" using A(3) by simp
  show o: "off_timer demo_low = Some \<lparr>t_cb = OffTimerCb, t_type = FuriTimerTypeOnce,
      t_running = True, t_ticks = 120000\<rparr>"
    using A(1) by simp
  show t: "tick_timer demo_low = Some \<lparr>t_cb = TickTimerCb, t_type = FuriTimerTypePeriodic,
      t_running = True, t_ticks = 1000\<rparr>"
    by (rule A(2))
  show "timers_wf demo_low" by (simp add: timers_wf_def o t)
qed

theorem settings_limit_toggle_witness:
  "screen demo_settings = ScreenSettings \<and> limit_runtime demo_settings
   \<and> active demo_settings = 1 \<and> remaining_ms demo_settings = 120000
   \<and> \<not> limit_runtime demo_unlimited \<and> remaining_ms demo_unlimited = 0
   \<and> off_timer demo_unlimited = Some \<lparr>t_cb = OffTimerCb, t_type = FuriTimerTypeOnce,
                                         t_running = False, t_ticks = 120000\<rparr>
   \<and> tick_timer demo_unlimited = Some \<lparr>t_cb = TickTimerCb, t_type = FuriTimerTypePeriodic,
                                          t_running = False, t_ticks = 1000\<rparr>
   \<and> screen demo_unlimited = ScreenSettings \<and> active demo_unlimited \<noteq> 0
   \<and> unat (active demo_unlimited) < MODE_COUNT \<and> timers_wf demo_unlimited
   \<and> limit_runtime (fst (input_step demo_unlimited (InputEvent InputTypeShort InputKeyOk) False))
   \<and> remaining_ms (fst (input_step demo_unlimited (InputEvent InputTypeShort InputKeyOk) False))
       = 120000
   \<and> off_timer (fst (input_step demo_unlimited (InputEvent InputTypeShort InputKeyOk) False))
       = Some \<lparr>t_cb = OffTimerCb, t_type = FuriTimerTypeOnce, t_running = True, t_ticks = 120000\<rparr>"
proof -
  have a: "screen demo_settings = ScreenSettings" "limit_runtime demo_settings"
    "active demo_settings = 1" "remaining_ms demo_settings = 120000"
    by (simp_all add: demo_settings_def demo_low_countdown demo_low_facts(3))
  from settings_limit_toggle [of demo_settings False] a(1,2)
  obtain s1 where s1: "input_step demo_settings (InputEvent InputTypeShort InputKeyOk) True = (s1, False)"
    "\<not> limit_runtime s1" "remaining_ms s1 = 0"
    "tick_timer s1 = map_option furi_timer_stop (tick_timer demo_settings)"
    "off_timer s1 = map_option furi_timer_stop (off_timer demo_settings)"
    "active s1 = active demo_settings" "screen s1 = ScreenSettings"
    by blast
  have u: "demo_unlimited = s1" by (simp add: demo_unlimited_def s1(1))
  have b: "\<not> limit_runtime demo_unlimited" "remaining_ms demo_unlimited = 0"
    "off_timer demo_unlimited = Some \<lparr>t_cb = OffTimerCb, t_type = FuriTimerTypeOnce,
                                         t_running = False, t_ticks = 120000\<rparr>"
    "tick_timer demo_unlimited = Some \<lparr>t_cb = TickTimerCb, t_type = FuriTimerTypePeriodic,
                                          t_running = False, t_ticks = 1000\<rparr>"
    "screen demo_unlimited = ScreenSettings" "active demo_unlimited = 1"
    unfolding u using s1(2-7)
    by (simp_all add: demo_settings_def demo_low_countdown demo_low_facts(3) furi_timer_stop_def)
  have c: "active demo_unlimited \<noteq> 0" "unat (active demo_unlimited) < MODE_COUNT"
    "timers_wf demo_unlimited"
    by (simp_all add: b MODE_COUNT_4 timers_wf_def)
  have S: "default_secs (kModes ! unat (active demo_unlimited)) = 120"
    by (simp add: b(6) kModes_def)
  from settings_limit_toggle [of demo_unlimited False] b(1,5) c
  obtain s2 where s2: "input_step demo_unlimited (InputEvent InputTypeShort InputKeyOk) False = (s2, False)"
    "limit_runtime s2" "remaining_ms s2 = default_secs (kModes ! unat (active demo_unlimited)) * 1000"
    "off_timer s2 = Some \<lparr>t_cb = OffTimerCb, t_type = FuriTimerTypeOnce, t_running = True,
        t_ticks = default_secs (kModes ! unat (active demo_unlimited)) * 1000\<rparr>"
    by blast
  have d: "limit_runtime (fst (input_step demo_unlimited (InputEvent InputTypeShort InputKeyOk) False))"
    "remaining_ms (fst (input_step demo_unlimited (InputEvent InputTypeShort InputKeyOk) False))
       = 120000"
    "off_timer (fst (input_step demo_unlimited (InputEvent InputTypeShort InputKeyOk) False))
       = Some \<lparr>t_cb = OffTimerCb, t_type = FuriTimerTypeOnce, t_running = True, t_ticks = 120000\<rparr>"
    using s2(2-4) by (simp_all add: s2(1) S)
  from a b(1-5) c d show ?thesis by (intro conjI)
qed

section \<open>The scrollbar thumb\<close>

lemma thumb_y_alt:
  "thumb_y n pos = (if thumb_w n pos < 2 then 2 else if thumb_w n pos > 61 then 61 else thumb_w n pos)"
  by (simp add: thumb_y_def thumb_w_def Let_def SCROLLBAR_Y0_def SCROLLBAR_Y1_def wi_hom_syms)

lemma thumb_y_p1_alt:
  "thumb_y_p1 n pos = (if thumb_w n pos > 61 then 61 else if thumb_w n pos < 2 then 2 else thumb_w n pos)"
  by (simp add: thumb_y_p1_def thumb_w_def Let_def SCROLLBAR_Y0_def SCROLLBAR_Y1_def wi_hom_syms)

lemma thumb_y_bounds: "2 \<le> thumb_y n pos \<and> thumb_y n pos \<le> 61"
  unfolding thumb_y_alt by (simp add: word_le_nat_alt word_less_nat_alt)

lemma thumb_y_p1_eq: "thumb_y_p1 n pos = thumb_y n pos"
  unfolding thumb_y_alt thumb_y_p1_alt by (simp add: word_le_nat_alt word_less_nat_alt)

lemma denom_unat: "1 < n \<Longrightarrow> unat (scrollbar_denom n) = unat n - 1"
  by (simp add: scrollbar_denom_def unat_sub word_le_nat_alt word_less_nat_alt)

lemma div_scaled_le: "0 < (d::nat) \<Longrightarrow> p \<le> d \<Longrightarrow> p * 60 div d \<le> 60"
proof -
  assume d: "0 < d" and p: "p \<le> d"
  have "p * 60 \<le> d * 60" using p by simp
  then have "p * 60 div d \<le> d * 60 div d" by (rule div_le_mono)
  also have "d * 60 div d = 60" using d by simp
  finally show ?thesis .
qed

lemma thumb_y_in_domain:
  assumes "1 < n" and "pos \<le> n - 1"
  shows "unat (thumb_y n pos) = min (2 + unat pos * 60 div (unat n - 1)) 61"
proof -
  define d where "d = unat n - 1"
  define p where "p = unat pos"
  have ud: "unat (scrollbar_denom n) = d" unfolding d_def by (rule denom_unat [OF assms(1)])
  have t1: "1 < unat n" using assms(1) by (simp add: word_less_nat_alt)
  have "unat (n - 1) = d" using t1 by (simp add: d_def unat_sub word_le_nat_alt)
  with assms(2) have pd: "p \<le> d" by (simp add: p_def word_le_nat_alt)
  have dpos: "0 < d" using t1 by (simp add: d_def)
  define k where "k = p * 60 div d"
  have k: "k \<le> 60" unfolding k_def by (rule div_scaled_le [OF dpos pd])
  have uid: "uint (scrollbar_denom n) = int d" unfolding ud [symmetric] by (rule uint_nat)
  have uip: "uint pos = int p" unfolding p_def by (rule uint_nat)
  have qi: "uint pos * 60 div uint (scrollbar_denom n) = int k"
    by (simp only: uid uip k_def zdiv_int of_nat_mult of_nat_numeral)
  have w: "thumb_w n pos = 2 + of_nat k"
    by (simp only: thumb_w_def qi) simp
  have "unat (2 + of_nat k :: u16) = 2 + k"
    using k by (simp add: unat_word_ariths unat_of_nat)
  then have uw: "unat (thumb_w n pos) = 2 + k" by (simp only: w)
  have "unat (thumb_y n pos) = min (2 + k) 61"
    unfolding thumb_y_alt using uw by (simp add: word_le_nat_alt word_less_nat_alt min_def)
  then show ?thesis by (simp add: k_def p_def d_def)
qed

lemma rail_dots_no_box: "filter is_box (rail_dots y) = []"
proof (induction y rule: rail_dots.induct)
  case (1 y)
  then show ?case by (subst rail_dots.simps) simp
qed

lemma thumb_y_mono:
  assumes "1 < n" and "pos \<le> pos'" and "pos' \<le> n - 1"
  shows "thumb_y n pos \<le> thumb_y n pos'"
proof -
  have le: "unat pos \<le> unat pos'" using assms(2) by (simp add: word_le_nat_alt)
  have "pos \<le> n - 1" using assms(2,3) by simp
  then have a: "unat (thumb_y n pos) = min (2 + unat pos * 60 div (unat n - 1)) 61"
    by (rule thumb_y_in_domain [OF assms(1)])
  have b: "unat (thumb_y n pos') = min (2 + unat pos' * 60 div (unat n - 1)) 61"
    by (rule thumb_y_in_domain [OF assms(1,3)])
  have "unat pos * 60 div (unat n - 1) \<le> unat pos' * 60 div (unat n - 1)"
    using le by (intro div_le_mono) simp
  then have "unat (thumb_y n pos) \<le> unat (thumb_y n pos')"
    unfolding a b by simp
  then show ?thesis by (simp add: word_le_nat_alt)
qed

lemma thumb_y_top:
  assumes "1 < n"
  shows "thumb_y n 0 = 2"
proof -
  have "unat (thumb_y n 0) = 2"
    using thumb_y_in_domain [OF assms, of 0] by simp
  then have "unat (thumb_y n 0) = unat (2 :: u16)" by simp
  then show ?thesis by (simp only: word_unat_eq_iff)
qed

lemma thumb_y_bottom:
  assumes "1 < n"
  shows "thumb_y n (n - 1) = 61"
proof -
  have t1: "1 < unat n" using assms by (simp add: word_less_nat_alt)
  then have u: "unat (n - 1) = unat n - 1" by (simp add: unat_sub word_le_nat_alt)
  have "unat (thumb_y n (n - 1)) = min (2 + (unat n - 1) * 60 div (unat n - 1)) 61"
    using thumb_y_in_domain [OF assms, of "n - 1"] by (simp add: u)
  also have "(unat n - 1) * 60 div (unat n - 1) = 60" using t1 by simp
  finally have "unat (thumb_y n (n - 1)) = 61" by simp
  then have "unat (thumb_y n (n - 1)) = unat (61 :: u16)" by simp
  then show ?thesis by (simp only: word_unat_eq_iff)
qed

lemma draw_scrollbar_dotted_p1_eq: "draw_scrollbar_dotted_p1 n pos = draw_scrollbar_dotted n pos"
  by (simp add: draw_scrollbar_dotted_p1_def draw_scrollbar_dotted_def thumb_y_p1_eq SCROLLBAR_W_def)

text \<open>
  Outside the documented range \<open>0..total_steps-1\<close> the 16-bit cast wraps and the order
  is lost: with two steps, position 1092 is clamped to the bottom and 1093 lands at 46.
\<close>

lemma thumb_y_wraps_outside_range: "thumb_y 2 1092 = 61 \<and> thumb_y 2 1093 = 46"
  by (simp add: thumb_y_alt thumb_w_def scrollbar_denom_def)

text \<open>
  C5. With one step (or none) \<open>draw_scrollbar_dotted\<close> draws nothing, so no thumb. With
  more than one step it draws the rail and exactly one box, the thumb, whose \<open>thumb_y\<close>
  always lies between the top of the track \<open>y0 = 2\<close> and the lower clamp bound
  \<open>y1 - 1 = 61\<close> (the 3x4 box at \<open>thumb_y - 1\<close> then ends on the last row of the screen and
  covers the last rail dot at \<open>y1\<close>). At \<open>pos = 0\<close> the thumb is at \<open>y0\<close>, at
  \<open>pos = total_steps - 1\<close> at \<open>y1 - 1\<close>, and over the positions \<open>0..total_steps-1\<close> the
  thumb position is non-decreasing in \<open>pos\<close>. The routine of the inverter-select variant
  draws the same.
\<close>

theorem scrollbar_thumb:
  "draw_scrollbar_dotted 0 pos = [] \<and> draw_scrollbar_dotted 1 pos = []
   \<and> draw_scrollbar_dotted_p1 n pos = draw_scrollbar_dotted n pos
   \<and> (1 < n \<longrightarrow>
        draw_scrollbar_dotted n pos
          = rail_dots SCROLLBAR_Y0 @ [Box (SCROLLBAR_X - 1) (thumb_y n pos - 1) 3 4]
        \<and> filter is_box (draw_scrollbar_dotted n pos)
            = [Box (SCROLLBAR_X - 1) (thumb_y n pos - 1) 3 4]
        \<and> SCROLLBAR_Y0 \<le> thumb_y n pos \<and> thumb_y n pos \<le> SCROLLBAR_Y1 - 1
        \<and> thumb_y n 0 = SCROLLBAR_Y0
        \<and> thumb_y n (n - 1) = SCROLLBAR_Y1 - 1
        \<and> (pos \<le> pos' \<and> pos' \<le> n - 1 \<longrightarrow> thumb_y n pos \<le> thumb_y n pos'))"
proof -
  have none: "draw_scrollbar_dotted 0 pos = []" "draw_scrollbar_dotted 1 pos = []"
    by (simp_all add: draw_scrollbar_dotted_def)
  have c: "SCROLLBAR_Y0 = 2" "SCROLLBAR_Y1 - 1 = (61 :: u16)"
    by (simp_all add: SCROLLBAR_Y0_def SCROLLBAR_Y1_def)
  have many: "1 < n \<longrightarrow>
        draw_scrollbar_dotted n pos
          = rail_dots SCROLLBAR_Y0 @ [Box (SCROLLBAR_X - 1) (thumb_y n pos - 1) 3 4]
        \<and> filter is_box (draw_scrollbar_dotted n pos)
            = [Box (SCROLLBAR_X - 1) (thumb_y n pos - 1) 3 4]
        \<and> SCROLLBAR_Y0 \<le> thumb_y n pos \<and> thumb_y n pos \<le> SCROLLBAR_Y1 - 1
        \<and> thumb_y n 0 = SCROLLBAR_Y0
        \<and> thumb_y n (n - 1) = SCROLLBAR_Y1 - 1
        \<and> (pos \<le> pos' \<and> pos' \<le> n - 1 \<longrightarrow> thumb_y n pos \<le> thumb_y n pos')"
  proof
    assume n: "1 < n"
    then have "\<not> n \<le> 1" by (simp add: word_le_nat_alt word_less_nat_alt)
    then have d: "draw_scrollbar_dotted n pos
          = rail_dots SCROLLBAR_Y0 @ [Box (SCROLLBAR_X - 1) (thumb_y n pos - 1) 3 4]"
      by (simp add: draw_scrollbar_dotted_def)
    have f: "filter is_box (draw_scrollbar_dotted n pos)
            = [Box (SCROLLBAR_X - 1) (thumb_y n pos - 1) 3 4]"
      by (simp add: d rail_dots_no_box)
    have m: "pos \<le> pos' \<and> pos' \<le> n - 1 \<longrightarrow> thumb_y n pos \<le> thumb_y n pos'"
      using thumb_y_mono [OF n] by blast
    from d f thumb_y_bounds [of n pos] thumb_y_top [OF n] thumb_y_bottom [OF n] m
    show "draw_scrollbar_dotted n pos
          = rail_dots SCROLLBAR_Y0 @ [Box (SCROLLBAR_X - 1) (thumb_y n pos - 1) 3 4]
        \<and> filter is_box (draw_scrollbar_dotted n pos)
            = [Box (SCROLLBAR_X - 1) (thumb_y n pos - 1) 3 4]
        \<and> SCROLLBAR_Y0 \<le> thumb_y n pos \<and> thumb_y n pos \<le> SCROLLBAR_Y1 - 1
        \<and> thumb_y n 0 = SCROLLBAR_Y0
        \<and> thumb_y n (n - 1) = SCROLLBAR_Y1 - 1
        \<and> (pos \<le> pos' \<and> pos' \<le> n - 1 \<longrightarrow> thumb_y n pos \<le> thumb_y n pos')"
      unfolding c by blast
  qed
  from none draw_scrollbar_dotted_p1_eq [of n pos] many show ?thesis by blast
qed

theorem scrollbar_thumb_witness:
  "(1 :: u16) < 6 \<and> (2 :: u16) \<le> 5 \<and> (5 :: u16) \<le> 6 - 1
   \<and> thumb_y 6 0 = 2 \<and> thumb_y 6 2 = 26 \<and> thumb_y 6 5 = 61
   \<and> thumb_y 6 2 \<le> thumb_y 6 5
   \<and> draw_scrollbar_dotted 6 2 = rail_dots SCROLLBAR_Y0 @ [Box 123 25 3 4]
   \<and> draw_scrollbar_dotted_p1 6 2 = rail_dots SCROLLBAR_Y0 @ [Box 123 25 3 4]"
proof -
  have h: "(1 :: u16) < 6" "(2 :: u16) \<le> 5" "(5 :: u16) \<le> 6 - 1" by simp_all
  have v: "thumb_y 6 0 = 2" "thumb_y 6 2 = 26" "thumb_y 6 5 = 61"
    by (simp_all add: thumb_y_alt thumb_w_def scrollbar_denom_def)
  have x: "SCROLLBAR_X - 1 = (123 :: u16)" by (simp add: SCROLLBAR_X_def)
  note T = scrollbar_thumb [of 2 6 5]
  from T h have m: "thumb_y 6 2 \<le> thumb_y 6 5" by blast
  from T h have d: "draw_scrollbar_dotted 6 2
      = rail_dots SCROLLBAR_Y0 @ [Box (SCROLLBAR_X - 1) (thumb_y 6 2 - 1) 3 4]"
    by blast
  from T have e: "draw_scrollbar_dotted_p1 6 2 = draw_scrollbar_dotted 6 2" by blast
  have d': "draw_scrollbar_dotted 6 2 = rail_dots SCROLLBAR_Y0 @ [Box 123 25 3 4]"
    using d by (simp add: v x)
  from h v m d' e show ?thesis by simp
qed

section \<open>The CF10B set-speed frame\<close>

lemma u8_and_ff: "(x :: u8) AND 0xFF = x"
proof -
  have "(255 :: u8) = - 1" by simp
  then show ?thesis by (simp only: and.right_neutral)
qed

lemma u16_ff_mask: "(255 :: u16) = mask 8"
  by (simp add: mask_eq_exp_minus_1)

lemma unat_lsb: "unat (ucast ((x :: u16) AND 0xFF) :: u8) = unat x mod 256"
  by (simp only: u16_ff_mask flip: take_bit_eq_mask)
     (simp add: unsigned_ucast_eq unsigned_take_bit_eq take_bit_eq_mod unat_mod unat_div)

lemma unat_msb: "unat (ucast (drop_bit 8 (x :: u16) AND 0xFF) :: u8) = unat x div 256"
proof -
  have "unat x < 65536"
    using unsigned_less [of x, where 'a = nat] by simp
  then have "unat x div 256 < 256" by simp
  then show ?thesis
    by (simp only: u16_ff_mask flip: take_bit_eq_mask)
       (simp add: unsigned_ucast_eq unsigned_take_bit_eq take_bit_eq_mod unat_drop_bit_eq
          drop_bit_eq_div unat_mod unat_div)
qed

lemma checksum_neg_sum: "engine_cf10b_checksum a b c d = - (a + b + c + d)"
proof -
  have "(256 :: u8) = 0" by simp
  then show ?thesis
    unfolding engine_cf10b_checksum_def Let_def
    by (simp add: wi_hom_syms u8_and_ff)
qed

lemma checksum_uint:
  "uint (engine_cf10b_checksum a b c d) =
     (0x100 - ((uint a + uint b + uint c + uint d) mod 0x100)) mod 0x100"
  unfolding engine_cf10b_checksum_def Let_def
  by (simp only: u8_and_ff uint_word_of_int) simp

lemma bytes_sum_zero:
  "(unat (a :: u8) + unat b + unat c + unat d + unat (- (a + b + c + d))) mod 256 = 0"
proof -
  have "unat (a + b + c + d + (- (a + b + c + d))) = 0" by simp
  then show ?thesis
    by (simp only: unat_word_ariths(1)) (simp add: mod_simps)
qed

lemma rpm_clamp_unat: "unat (if (rpm :: u16) > 4500 then 4500 else rpm) = min (unat rpm) 4500"
  by (simp add: word_less_nat_alt min_def)

text \<open>
  C6. \<open>engine_cf10b_build_set_speed\<close> returns 5 and writes exactly the five bytes
  \<open>0xA5, 0xC3, lsb, msb, ck\<close>, where \<open>lsb\<close> and \<open>msb\<close> are the low and high byte of the RPM
  clamped to at most 4500 (so \<open>lsb + 256 * msb\<close> is \<open>min rpm 4500\<close>), and \<open>ck\<close> is
  \<open>0x100 - ((0xA5 + 0xC3 + lsb + msb) & 0xFF)\<close> truncated to a byte. The five bytes sum
  to 0 modulo 256 for every input, and the frame for 4500 is
  \<open>0xA5, 0xC3, 0x94, 0x11, 0xF3\<close>.
\<close>

theorem build_set_speed_frame:
  "\<exists>lsb msb ck.
     engine_cf10b_build_set_speed rpm = (5, [0xA5, 0xC3, lsb, msb, ck]) \<and>
     lsb = ucast ((if rpm > 4500 then 4500 else rpm) AND 0xFF) \<and>
     msb = ucast (drop_bit 8 (if rpm > 4500 then 4500 else rpm) AND 0xFF) \<and>
     unat lsb + 256 * unat msb = min (unat rpm) 4500 \<and>
     uint ck = (0x100 - ((0xA5 + 0xC3 + uint lsb + uint msb) mod 0x100)) mod 0x100 \<and>
     (0xA5 + 0xC3 + unat lsb + unat msb + unat ck) mod 256 = 0 \<and>
     length (snd (engine_cf10b_build_set_speed rpm)) = 5 \<and>
     engine_cf10b_build_set_speed 4500 = (5, [0xA5, 0xC3, 0x94, 0x11, 0xF3])"
proof -
  define r where "r = (if rpm > 4500 then 4500 else rpm)"
  define lsb :: u8 where "lsb = ucast (r AND 0xFF)"
  define msb :: u8 where "msb = ucast (drop_bit 8 r AND 0xFF)"
  define ck where "ck = engine_cf10b_checksum 0xA5 0xC3 lsb msb"
  have frame: "engine_cf10b_build_set_speed rpm = (5, [0xA5, 0xC3, lsb, msb, ck])"
    by (simp add: engine_cf10b_build_set_speed_def Let_def r_def lsb_def msb_def ck_def)
  have "unat lsb = unat r mod 256"
    unfolding lsb_def by (rule unat_lsb)
  moreover have "unat msb = unat r div 256"
    unfolding msb_def by (rule unat_msb)
  ultimately have "unat lsb + 256 * unat msb = unat r"
    by simp
  then have speed: "unat lsb + 256 * unat msb = min (unat rpm) 4500"
    by (simp only: r_def rpm_clamp_unat)
  have ckv: "uint ck = (0x100 - ((0xA5 + 0xC3 + uint lsb + uint msb) mod 0x100)) mod 0x100"
    using checksum_uint [of "0xA5" "0xC3" lsb msb] by (simp add: ck_def)
  have "(unat (0xA5 :: u8) + unat (0xC3 :: u8) + unat lsb + unat msb
          + unat (- (0xA5 + 0xC3 + lsb + msb))) mod 256 = 0"
    by (rule bytes_sum_zero)
  then have zero: "(0xA5 + 0xC3 + unat lsb + unat msb + unat ck) mod 256 = 0"
    by (simp add: ck_def checksum_neg_sum)
  have at4500: "engine_cf10b_build_set_speed 4500 = (5, [0xA5, 0xC3, 0x94, 0x11, 0xF3])"
    by (simp add: engine_cf10b_build_set_speed_def engine_cf10b_checksum_def Let_def)
  have lsbv: "lsb = ucast ((if rpm > 4500 then 4500 else rpm) AND 0xFF)"
    by (simp only: lsb_def r_def)
  have msbv: "msb = ucast (drop_bit 8 (if rpm > 4500 then 4500 else rpm) AND 0xFF)"
    by (simp only: msb_def r_def)
  have len: "length (snd (engine_cf10b_build_set_speed rpm)) = 5"
    by (simp only: frame) simp
  show ?thesis
    apply (intro exI conjI)
           apply (rule frame)
          apply (rule lsbv)
         apply (rule msbv)
        apply (rule speed)
       apply (rule ckv)
      apply (rule zero)
     apply (rule len)
    apply (rule at4500)
    done
qed

section \<open>The engine tick: interlock before dispatch\<close>



















section \<open>Long Back and the exit path\<close>

subsection \<open>The flag mirrors the generator in every reachable state\<close>

lemma consistent_updates:
  "pwm_consistent (s\<lparr>screen := a1\<rparr>) = pwm_consistent s"
  "pwm_consistent (s\<lparr>cursor := a2\<rparr>) = pwm_consistent s"
  "pwm_consistent (s\<lparr>first_visible := a3\<rparr>) = pwm_consistent s"
  "pwm_consistent (s\<lparr>active := a4\<rparr>) = pwm_consistent s"
  "pwm_consistent (s\<lparr>help_top_line := a5\<rparr>) = pwm_consistent s"
  "pwm_consistent (s\<lparr>limit_runtime := a6\<rparr>) = pwm_consistent s"
  "pwm_consistent (s\<lparr>remaining_ms := a7\<rparr>) = pwm_consistent s"
  "pwm_consistent (s\<lparr>timeout_expired := a8\<rparr>) = pwm_consistent s"
  "pwm_consistent (s\<lparr>hint_visible := a9\<rparr>) = pwm_consistent s"
  "pwm_consistent (s\<lparr>led_on := b1\<rparr>) = pwm_consistent s"
  "pwm_consistent (s\<lparr>led_timer := b2\<rparr>) = pwm_consistent s"
  "pwm_consistent (s\<lparr>hint_timer := b3\<rparr>) = pwm_consistent s"
  "pwm_consistent (s\<lparr>tick_timer := b4\<rparr>) = pwm_consistent s"
  "pwm_consistent (s\<lparr>off_timer := b5\<rparr>) = pwm_consistent s"
  by (simp_all add: pwm_consistent_def)

lemma consistent_updates_p1:
  "pwm_consistent (s\<lparr>inverter := c1\<rparr>) = pwm_consistent s"
  "pwm_consistent (s\<lparr>powered := c2\<rparr>) = pwm_consistent s"
  "pwm_consistent (s\<lparr>arrow_captcha := c3\<rparr>) = pwm_consistent s"
  by (simp_all add: pwm_consistent_def)

lemma consistent_helpers:
  "pwm_consistent (stop_timers s) = pwm_consistent s"
  "pwm_consistent (led_apply s b) = pwm_consistent s"
  "pwm_consistent (pin_to_hiz s) = pwm_consistent s"
  "pwm_consistent (start_tick_timer_if_needed s) = pwm_consistent s"
  "pwm_consistent (show_hint s) = pwm_consistent s"
  "pwm_consistent (nav_up n s) = pwm_consistent s"
  "pwm_consistent (nav_down n s) = pwm_consistent s"
  "pwm_consistent (led_set on s) = pwm_consistent s"
  by (simp_all add: pwm_consistent_def stop_timers_eq led_apply_eq pin_to_hiz_eq
        start_tick_timer_if_needed_eq show_hint_def nav_up_def nav_down_def led_set_def
        notification_message_def emit_def Let_def split: option.split)

lemma consistent_start_tick_p1:
  "pwm_consistent (start_tick_timer_if_needed_p1 s) = pwm_consistent s"
  by (simp add: pwm_consistent_def start_tick_timer_if_needed_p1_eq)

lemma consistent_stop_safe: "pwm_consistent s \<Longrightarrow> pwm_consistent (pwm_hw_stop_safe s)"
  by (auto simp: pwm_consistent_def pwm_hw_stop_safe_eq)


lemma apply_mode_p1_consistent:
  assumes "pwm_consistent s"
  shows "pwm_consistent (apply_mode_p1 s idx)"
proof (cases "unat idx < MODE_COUNT")
  case True
  with assms show ?thesis
    by (auto simp: pwm_consistent_def apply_mode_p1_eq [OF True] Let_def)
next
  case False
  with assms show ?thesis by (simp add: apply_mode_p1_def)
qed

lemma timer_fired_consistent: "pwm_consistent (timer_fired cb s) = pwm_consistent s"
  by (cases cb)
     (simp_all add: timer_fired_def led_timer_cb_def tick_timer_cb_def off_timer_cb_def
        hint_timer_cb_def Let_def consistent_helpers consistent_updates split: option.split)

lemma enter_safe_menu_consistent: "pwm_consistent s \<Longrightarrow> pwm_consistent (enter_safe_menu s)"
  by (simp add: enter_safe_menu_def Let_def consistent_helpers consistent_updates
        consistent_updates_p1 consistent_stop_safe)

lemma enter_powered_consistent:
  "pwm_consistent s \<Longrightarrow> pwm_consistent (enter_powered_menu_standby s)"
  by (simp add: enter_powered_menu_standby_def apply_mode_p1_consistent consistent_updates
        consistent_updates_p1)

lemma service_timeout_p1_consistent: "pwm_consistent s \<Longrightarrow> pwm_consistent (service_timeout_p1 s)"
  by (simp add: service_timeout_p1_def enter_powered_consistent consistent_updates)

lemma service_timeout_consistent: "pwm_consistent s \<Longrightarrow> pwm_consistent (service_timeout s)"
  by (simp add: service_timeout_def apply_mode_consistent consistent_updates)

lemma select_inverter_consistent:
  "pwm_consistent s \<Longrightarrow> pwm_consistent (select_inverter_input s ty key)"
  by (simp add: select_inverter_input_def enter_safe_menu_consistent consistent_helpers
        consistent_updates consistent_updates_p1)

lemma menu_p1_consistent: "pwm_consistent s \<Longrightarrow> pwm_consistent (menu_input_p1 s ty key c)"
  by (simp add: menu_input_p1_def Let_def enter_safe_menu_consistent enter_powered_consistent
        apply_mode_p1_consistent consistent_helpers consistent_updates)

lemma help_p1_consistent: "pwm_consistent s \<Longrightarrow> pwm_consistent (help_input_p1 s ty key)"
  by (simp add: help_input_p1_def Let_def consistent_updates)

lemma settings_p1_consistent: "pwm_consistent s \<Longrightarrow> pwm_consistent (settings_input_p1 s ty key c)"
  by (simp add: settings_input_p1_def Let_def enter_safe_menu_consistent consistent_start_tick_p1
        consistent_helpers consistent_updates consistent_updates_p1)

lemma input_step_p1_consistent:
  "pwm_consistent s \<Longrightarrow> pwm_consistent (fst (input_step_p1 s ev c))"
  by (cases ev; cases "screen s")
     (simp_all add: input_step_p1_def select_inverter_consistent menu_p1_consistent
        help_p1_consistent settings_p1_consistent)

lemma help_consistent: "pwm_consistent s \<Longrightarrow> pwm_consistent (help_input s ty key)"
  by (simp add: help_input_def Let_def apply_mode_consistent consistent_updates)

lemma settings_consistent: "pwm_consistent s \<Longrightarrow> pwm_consistent (settings_input s ty key c)"
  by (simp add: settings_input_def Let_def consistent_helpers consistent_updates)

lemma menu_consistent: "pwm_consistent s \<Longrightarrow> pwm_consistent (fst (menu_input s ty key))"
  by (simp add: menu_input_def Let_def apply_mode_consistent consistent_helpers consistent_updates
        consistent_stop_safe)

lemma input_step_consistent: "pwm_consistent s \<Longrightarrow> pwm_consistent (fst (input_step s ev c))"
  by (cases ev)
     (simp add: input_step_def help_consistent settings_consistent menu_consistent)

lemma init_p1_consistent: "pwm_gen pl = None \<Longrightarrow> pwm_consistent (embraco_starter_init_p1 pl)"
  by (simp add: pwm_consistent_def embraco_starter_init_p1_def led_apply_eq pin_to_hiz_eq)

subsection \<open>The cleanup\<close>

lemma cleanup_fields:
  "pin_mode (plat (cleanup s)) = GpioModeInput"
  "pwm_gen (plat (cleanup s)) = (if pwm_running s then None else pwm_gen (plat s))"
  "\<not> pwm_running (cleanup s)"
  "\<not> led_green (plat (cleanup s))"
  "led_timer (cleanup s) = None" "hint_timer (cleanup s) = None"
  "tick_timer (cleanup s) = None" "off_timer (cleanup s) = None"
  by (simp_all add: cleanup_def Let_def pin_to_hiz_eq pwm_hw_stop_safe_eq free_timers_eq
        stop_timers_eq notification_message_def emit_def split: option.split)

lemma cleanup_safe: "pwm_consistent s \<Longrightarrow> exit_safe (cleanup s)"
  by (cases "pwm_running s"; cases "pwm_gen (plat s)")
     (simp_all add: exit_safe_def cleanup_fields pwm_consistent_def)

subsection \<open>The loops\<close>

lemma queue_wait_p1_safe:
  "pwm_consistent s \<Longrightarrow> queue_wait_p1 s stimuli = Some f \<Longrightarrow> exit_safe f"
proof (induction s stimuli rule: queue_wait_p1.induct)
  case (1 s)
  then show ?case by simp
next
  case (2 s cb rest)
  then show ?case by (simp add: timer_fired_consistent)
next
  case (3 s rest)
  then show ?case by (simp add: service_timeout_p1_consistent)
next
  case (4 s ev confirm rest)
  obtain s1 ex where st: "input_step_p1 s ev confirm = (s1, ex)"
    by (cases "input_step_p1 s ev confirm") auto
  have c: "pwm_consistent s1"
    using input_step_p1_consistent [OF "4.prems"(1), of ev confirm] by (simp add: st)
  show ?case
  proof (cases ex)
    case True
    with "4.prems"(2) st have "f = cleanup s1" by simp
    with c show ?thesis by (simp add: cleanup_safe)
  next
    case False
    with "4.prems"(2) st have "queue_wait_p1 (service_timeout_p1 s1) rest = Some f" by simp
    from "4.IH" [OF st [symmetric] False service_timeout_p1_consistent [OF c] this]
    show ?thesis .
  qed
qed

lemma main_loop_p1_safe:
  "pwm_consistent s \<Longrightarrow> main_loop_p1 s stimuli = Some f \<Longrightarrow> exit_safe f"
  unfolding main_loop_p1_def
  by (rule queue_wait_p1_safe [OF service_timeout_p1_consistent])

lemma queue_wait_safe:
  "pwm_consistent s \<Longrightarrow> queue_wait s stimuli = Some f \<Longrightarrow> exit_safe f"
proof (induction s stimuli rule: queue_wait.induct)
  case (1 s)
  then show ?case by simp
next
  case (2 s cb rest)
  then show ?case by (simp add: timer_fired_consistent)
next
  case (3 s rest)
  then show ?case by (simp add: service_timeout_consistent)
next
  case (4 s ev confirm rest)
  obtain s1 ex where st: "input_step s ev confirm = (s1, ex)"
    by (cases "input_step s ev confirm") auto
  have c: "pwm_consistent s1"
    using input_step_consistent [OF "4.prems"(1), of ev confirm] by (simp add: st)
  show ?case
  proof (cases ex)
    case True
    with "4.prems"(2) st have "f = cleanup s1" by simp
    with c show ?thesis by (simp add: cleanup_safe)
  next
    case False
    with "4.prems"(2) st have "queue_wait (service_timeout s1) rest = Some f" by simp
    from "4.IH" [OF st [symmetric] False service_timeout_consistent [OF c] this]
    show ?thesis .
  qed
qed

lemma main_loop_safe:
  "pwm_consistent s \<Longrightarrow> main_loop s stimuli = Some f \<Longrightarrow> exit_safe f"
  unfolding main_loop_def
  by (rule queue_wait_safe [OF service_timeout_consistent])

lemma long_back_p1:
  "input_step_p1 s (InputEvent InputTypeLong InputKeyBack) c = (s, True)"
  by (simp add: input_step_p1_def)

lemma long_back:
  "input_step s (InputEvent InputTypeLong InputKeyBack) c = (s, screen s = ScreenMenu)"
  by (cases "screen s")
     (simp_all add: input_step_def help_input_def settings_input_def menu_input_def)

lemma service_timeout_screen: "screen (service_timeout s) = screen s"
proof (cases "timeout_expired s")
  case True
  then show ?thesis by (simp add: service_timeout_expired mode_applied_def)
next
  case False
  then show ?thesis by (simp add: service_timeout_def)
qed

lemma timer_fired_screen: "screen (timer_fired cb s) = screen s"
  by (cases cb)
     (simp_all add: timer_fired_def led_timer_cb_def tick_timer_cb_def off_timer_cb_def
        hint_timer_cb_def led_set_def Let_def split: option.split)

lemma callbacks_screen: "screen (fold timer_fired cbs s) = screen s"
  by (induction cbs arbitrary: s) (simp_all add: timer_fired_screen)

lemma callbacks_consistent: "pwm_consistent (fold timer_fired cbs s) = pwm_consistent s"
  by (induction cbs arbitrary: s) (simp_all add: timer_fired_consistent)

text \<open>Callbacks that fire during one wait run one after the other on the waiting state.\<close>

lemma queue_wait_callbacks:
  "queue_wait s (map TimerFired cbs @ rest) = queue_wait (fold timer_fired cbs s) rest"
  by (induction cbs arbitrary: s) simp_all

lemma queue_wait_p1_callbacks:
  "queue_wait_p1 s (map TimerFired cbs @ rest) = queue_wait_p1 (fold timer_fired cbs s) rest"
  by (induction cbs arbitrary: s) simp_all

lemma queue_wait_p1_long_back:
  "\<exists>f. queue_wait_p1 s (stimuli @ Key (InputEvent InputTypeLong InputKeyBack) c # rest) = Some f"
proof (induction s stimuli rule: queue_wait_p1.induct)
  case (1 s)
  then show ?case by (simp add: long_back_p1)
next
  case (2 s cb rest')
  then show ?case by simp
next
  case (3 s rest')
  then show ?case by simp
next
  case (4 s ev confirm rest')
  obtain s1 ex where st: "input_step_p1 s ev confirm = (s1, ex)"
    by (cases "input_step_p1 s ev confirm") auto
  show ?case
  proof (cases ex)
    case True
    with st show ?thesis by simp
  next
    case False
    from "4.IH" [OF st [symmetric] False] False st show ?thesis by simp
  qed
qed

text \<open>
  C4, as the code has it. In the inverter-select variant the long Back test comes before
  the \<open>switch\<close> on the screen: on every screen and in every state the event sets
  \<open>exit_app\<close> and leaves the state alone, the loop ends and the cleanup runs on that very
  state, also when timer callbacks have run during the wait, so that the expiry flag is
  still set and the mode still active when the application leaves; whatever stimuli
  came before, a long Back makes the application return. In \<open>src/embraco_starter.c\<close> the
  long Back is handled in the Menu branch only: it exits from the Menu screen, and on
  Help and Settings the event changes nothing and the loop goes on with its next pass.
  In both variants the cleanup of any state whose \<open>pwm_running\<close> flag mirrors the
  generator leaves the pin configured as Hi-Z input, the PWM generator off, the LED off
  and all timers released, whatever screen and mode were active, and every state the
  application returns in is of that kind (\<open>pwm_gen pl = None\<close>: the generator is off when
  the application starts).
\<close>

theorem long_back_exit:
  "input_step_p1 s1 (InputEvent InputTypeLong InputKeyBack) c = (s1, True)
   \<and> queue_wait_p1 s1 (Key (InputEvent InputTypeLong InputKeyBack) c # rest) = Some (cleanup s1)
   \<and> main_loop_p1 s1 (map TimerFired cbs @ Key (InputEvent InputTypeLong InputKeyBack) c # rest)
       = Some (cleanup (fold timer_fired cbs (service_timeout_p1 s1)))
   \<and> (pwm_consistent s1 \<longrightarrow>
        exit_safe (cleanup s1)
        \<and> exit_safe (cleanup (fold timer_fired cbs (service_timeout_p1 s1))))
   \<and> (pwm_gen pl = None \<longrightarrow>
        (\<exists>f1. embraco_starter_p1 pl (stimuli @ [Key (InputEvent InputTypeLong InputKeyBack) c]) = Some f1
           \<and> exit_safe f1))
   \<and> (pwm_gen pl = None \<and> embraco_starter_p1 pl stimuli = Some f1 \<longrightarrow> exit_safe f1)
   \<and> input_step s (InputEvent InputTypeLong InputKeyBack) c = (s, screen s = ScreenMenu)
   \<and> queue_wait s (Key (InputEvent InputTypeLong InputKeyBack) c # rest)
       = (if screen s = ScreenMenu then Some (cleanup s) else main_loop s rest)
   \<and> main_loop s (map TimerFired cbs @ Key (InputEvent InputTypeLong InputKeyBack) c # rest)
       = (if screen s = ScreenMenu
          then Some (cleanup (fold timer_fired cbs (service_timeout s)))
          else main_loop (fold timer_fired cbs (service_timeout s)) rest)
   \<and> (pwm_consistent s \<longrightarrow>
        exit_safe (cleanup s)
        \<and> exit_safe (cleanup (fold timer_fired cbs (service_timeout s))))
   \<and> (pwm_gen pl = None \<and> embraco_starter pl stimuli = Some f \<longrightarrow> exit_safe f)"
proof -
  let ?lb = "InputEvent InputTypeLong InputKeyBack"
  have a: "input_step_p1 s1 ?lb c = (s1, True)"
    by (rule long_back_p1)
  have b1: "queue_wait_p1 s1 (Key ?lb c # rest) = Some (cleanup s1)"
    by (simp add: long_back_p1)
  have b2: "main_loop_p1 s1 (map TimerFired cbs @ Key ?lb c # rest)
       = Some (cleanup (fold timer_fired cbs (service_timeout_p1 s1)))"
    by (simp add: main_loop_p1_def queue_wait_p1_callbacks long_back_p1)
  have c1: "pwm_consistent s1 \<longrightarrow>
        exit_safe (cleanup s1)
        \<and> exit_safe (cleanup (fold timer_fired cbs (service_timeout_p1 s1)))"
    by (simp add: cleanup_safe callbacks_consistent service_timeout_p1_consistent)
  have d: "pwm_gen pl = None \<longrightarrow>
        (\<exists>f1. embraco_starter_p1 pl (stimuli @ [Key ?lb c]) = Some f1 \<and> exit_safe f1)"
  proof
    assume p: "pwm_gen pl = None"
    obtain f1 where f1: "queue_wait_p1 (service_timeout_p1 (embraco_starter_init_p1 pl))
        (stimuli @ [Key ?lb c]) = Some f1"
      using queue_wait_p1_long_back
        [of "service_timeout_p1 (embraco_starter_init_p1 pl)" stimuli c "[]"]
      by blast
    then have m: "main_loop_p1 (embraco_starter_init_p1 pl) (stimuli @ [Key ?lb c]) = Some f1"
      by (simp add: main_loop_p1_def)
    have "exit_safe f1"
      by (rule main_loop_p1_safe [OF init_p1_consistent [OF p] m])
    with m show "\<exists>f1. embraco_starter_p1 pl (stimuli @ [Key ?lb c]) = Some f1 \<and> exit_safe f1"
      by (simp add: embraco_starter_p1_def)
  qed
  have e: "pwm_gen pl = None \<and> embraco_starter_p1 pl stimuli = Some f1 \<longrightarrow> exit_safe f1"
    using main_loop_p1_safe [OF init_p1_consistent, of pl stimuli f1]
    by (simp add: embraco_starter_p1_def)
  have f: "input_step s ?lb c = (s, screen s = ScreenMenu)"
    by (rule long_back)
  have g1: "queue_wait s (Key ?lb c # rest)
       = (if screen s = ScreenMenu then Some (cleanup s) else main_loop s rest)"
    by (simp add: long_back main_loop_def)
  have g2: "main_loop s (map TimerFired cbs @ Key ?lb c # rest)
       = (if screen s = ScreenMenu
          then Some (cleanup (fold timer_fired cbs (service_timeout s)))
          else main_loop (fold timer_fired cbs (service_timeout s)) rest)"
    by (simp add: main_loop_def queue_wait_callbacks long_back callbacks_screen
          service_timeout_screen)
  have i: "pwm_consistent s \<longrightarrow>
        exit_safe (cleanup s)
        \<and> exit_safe (cleanup (fold timer_fired cbs (service_timeout s)))"
    by (simp add: cleanup_safe callbacks_consistent service_timeout_consistent)
  have j: "pwm_gen pl = None \<and> embraco_starter pl stimuli = Some f \<longrightarrow> exit_safe f"
    using main_loop_safe [OF init_consistent, of pl stimuli f]
    by (simp add: embraco_starter_def)
  from a b1 b2 c1 d e f g1 g2 i j show ?thesis by (intro conjI)
qed

text \<open>
  The claim as stated fails on \<open>src/embraco_starter.c\<close>: the application starts on the
  Help screen, and a long Back there (or on Settings) does not end the loop.
\<close>

theorem long_back_help_counterexample:
  "screen (embraco_starter_init boot_platform) = ScreenHelp
   \<and> input_step (embraco_starter_init boot_platform) (InputEvent InputTypeLong InputKeyBack) False
       = (embraco_starter_init boot_platform, False)
   \<and> embraco_starter boot_platform [Key (InputEvent InputTypeLong InputKeyBack) False] = None
   \<and> screen demo_settings = ScreenSettings
   \<and> input_step demo_settings (InputEvent InputTypeLong InputKeyBack) False = (demo_settings, False)"
proof -
  have a: "screen (embraco_starter_init boot_platform) = ScreenHelp"
    by (rule init_fields(3))
  have b: "input_step (embraco_starter_init boot_platform) (InputEvent InputTypeLong InputKeyBack) False
       = (embraco_starter_init boot_platform, False)"
    by (simp add: long_back a)
  have "service_timeout (embraco_starter_init boot_platform) = embraco_starter_init boot_platform"
    by (simp add: service_timeout_def init_fields(6))
  then have c: "embraco_starter boot_platform [Key (InputEvent InputTypeLong InputKeyBack) False] = None"
    by (simp add: embraco_starter_def main_loop_def b)
  have d: "screen demo_settings = ScreenSettings" by (simp add: demo_settings_def)
  have e: "input_step demo_settings (InputEvent InputTypeLong InputKeyBack) False = (demo_settings, False)"
    by (simp add: long_back d)
  from a b c d e show ?thesis by (intro conjI)
qed

text \<open>
  A run of \<open>src/embraco_starter.c\<close> on its Menu screen with the low speed applied: the
  off timer fires while the application waits, then the long Back arrives. The
  application leaves with the mode still active and the flag set, and the cleanup alone
  stops the PWM. On Settings the same event is ignored. In the inverter-select variant a
  session that powers on, runs a mode and opens Help ends at the long Back.
\<close>

theorem long_back_exit_witness:
  "pwm_gen boot_platform = None
   \<and> pwm_consistent (demo_low\<lparr>screen := ScreenMenu\<rparr>)
   \<and> screen (demo_low\<lparr>screen := ScreenMenu\<rparr>) = ScreenMenu
   \<and> pwm_running (demo_low\<lparr>screen := ScreenMenu\<rparr>)
   \<and> main_loop (demo_low\<lparr>screen := ScreenMenu\<rparr>)
        [TimerFired OffTimerCb, Key (InputEvent InputTypeLong InputKeyBack) False]
       = Some (cleanup (timer_fired OffTimerCb (demo_low\<lparr>screen := ScreenMenu\<rparr>)))
   \<and> active (timer_fired OffTimerCb (demo_low\<lparr>screen := ScreenMenu\<rparr>)) = 1
   \<and> timeout_expired (timer_fired OffTimerCb (demo_low\<lparr>screen := ScreenMenu\<rparr>))
   \<and> pwm_running (timer_fired OffTimerCb (demo_low\<lparr>screen := ScreenMenu\<rparr>))
   \<and> exit_safe (cleanup (timer_fired OffTimerCb (demo_low\<lparr>screen := ScreenMenu\<rparr>)))
   \<and> exit_safe (cleanup (demo_low\<lparr>screen := ScreenMenu\<rparr>))
   \<and> screen demo_settings \<noteq> ScreenMenu
   \<and> main_loop demo_settings [Key (InputEvent InputTypeLong InputKeyBack) False] = None
   \<and> (\<exists>f1. embraco_starter_p1 boot_platform
          ([Key (InputEvent InputTypeShort InputKeyOk) False,
            Key (InputEvent InputTypeShort InputKeyOk) True,
            Key (InputEvent InputTypeShort InputKeyDown) False,
            Key (InputEvent InputTypeShort InputKeyOk) False,
            Key (InputEvent InputTypeShort InputKeyUp) False,
            Key (InputEvent InputTypeShort InputKeyUp) False,
            Key (InputEvent InputTypeShort InputKeyOk) False]
           @ [Key (InputEvent InputTypeLong InputKeyBack) False]) = Some f1
        \<and> exit_safe f1)"
proof -
  let ?m = "demo_low\<lparr>screen := ScreenMenu\<rparr>"
  let ?lb = "InputEvent InputTypeLong InputKeyBack"
  have p: "pwm_gen boot_platform = None" by (simp add: boot_platform_def)
  have m: "pwm_consistent ?m" "screen ?m = ScreenMenu" "pwm_running ?m"
    using demo_low_facts(1,2) by (simp_all add: consistent_updates)
  have ne: "\<not> timeout_expired demo_low"
    using apply_mode_armed(4) [OF one_valid _ init_fields(1,2), of boot_platform]
    by (simp add: demo_low_def)
  have st: "service_timeout ?m = ?m"
    using ne by (simp add: service_timeout_def)
  have st2: "service_timeout demo_settings = demo_settings"
    using ne by (simp add: service_timeout_def demo_settings_def)
  have fired: "timer_fired OffTimerCb ?m =
      ?m\<lparr>off_timer := Some \<lparr>t_cb = OffTimerCb, t_type = FuriTimerTypeOnce,
                               t_running = False, t_ticks = 120000\<rparr>,
          remaining_ms := 0, timeout_expired := True\<rparr>"
    by (subst off_fired [of _ "\<lparr>t_cb = OffTimerCb, t_type = FuriTimerTypeOnce,
          t_running = True, t_ticks = 120000\<rparr>"]) (simp_all add: demo_low_countdown(4))
  have af: "active (timer_fired OffTimerCb ?m) = 1" "timeout_expired (timer_fired OffTimerCb ?m)"
    "pwm_running (timer_fired OffTimerCb ?m)"
    by (simp_all add: fired demo_low_facts(2,3))
  note T = long_back_exit [of _ False "[]" "[OffTimerCb]" boot_platform _ _ ?m]
  from T m(2) have l: "main_loop ?m [TimerFired OffTimerCb, Key ?lb False]
       = Some (cleanup (timer_fired OffTimerCb ?m))"
    by (simp add: st)
  from T m(1) have s: "exit_safe (cleanup (timer_fired OffTimerCb ?m))" "exit_safe (cleanup ?m)"
    by (simp_all add: st)
  have ns: "screen demo_settings \<noteq> ScreenMenu" by (simp add: demo_settings_def)
  from long_back_exit [of _ False "[]" "[]" boot_platform _ _ demo_settings] ns
  have "main_loop demo_settings [Key ?lb False] = main_loop demo_settings []"
    by (simp add: st2)
  then have l2: "main_loop demo_settings [Key ?lb False] = None"
    by (simp add: main_loop_def)
  from long_back_exit [of _ False "[]" "[]" boot_platform
      "[Key (InputEvent InputTypeShort InputKeyOk) False,
        Key (InputEvent InputTypeShort InputKeyOk) True,
        Key (InputEvent InputTypeShort InputKeyDown) False,
        Key (InputEvent InputTypeShort InputKeyOk) False,
        Key (InputEvent InputTypeShort InputKeyUp) False,
        Key (InputEvent InputTypeShort InputKeyUp) False,
        Key (InputEvent InputTypeShort InputKeyOk) False]"] p
  have e: "\<exists>f1. embraco_starter_p1 boot_platform
          ([Key (InputEvent InputTypeShort InputKeyOk) False,
            Key (InputEvent InputTypeShort InputKeyOk) True,
            Key (InputEvent InputTypeShort InputKeyDown) False,
            Key (InputEvent InputTypeShort InputKeyOk) False,
            Key (InputEvent InputTypeShort InputKeyUp) False,
            Key (InputEvent InputTypeShort InputKeyUp) False,
            Key (InputEvent InputTypeShort InputKeyOk) False]
           @ [Key (InputEvent InputTypeLong InputKeyBack) False]) = Some f1
        \<and> exit_safe f1"
    by blast
  from p m l af s ns l2 e show ?thesis by (intro conjI)
qed

section \<open>Out-of-range indices\<close>

lemma profile_count_3: "profile_count = 3"
  by (simp add: profile_count_def profiles_def)

text \<open>
  C9. \<open>apply_mode\<close> with a mode index at or above \<open>MODE_COUNT\<close> returns the state it was
  given: no field changes and no call reaches the hardware or a timer (the trace is part
  of the state). The same holds in the inverter-select variant. \<open>profile_set_active\<close>
  with an index at or above \<open>profile_count\<close> returns the profile runtime unchanged.
  Both are plain returns: the functions are total and have no error result.
\<close>

theorem invalid_index_noop:
  assumes "MODE_COUNT \<le> unat idx" and "profile_count \<le> pidx"
  shows "apply_mode s idx = s \<and> apply_mode_p1 s1 idx = s1 \<and> profile_set_active g_rt pidx = g_rt"
  using assms by (simp add: apply_mode_def apply_mode_p1_def profile_set_active_def)

theorem invalid_index_noop_witness:
  "MODE_COUNT \<le> unat (4 :: u8) \<and> profile_count \<le> 3
   \<and> apply_mode (embraco_starter_init boot_platform) 4 = embraco_starter_init boot_platform
   \<and> apply_mode_p1 (embraco_starter_init_p1 boot_platform) 4 = embraco_starter_init_p1 boot_platform
   \<and> profile_set_active \<lparr>active_ptr = 0, active_index = 0, locked = False\<rparr> 3
       = \<lparr>active_ptr = 0, active_index = 0, locked = False\<rparr>"
proof -
  have a: "MODE_COUNT \<le> unat (4 :: u8)" by (simp add: MODE_COUNT_4)
  have b: "profile_count \<le> 3" by (simp add: profile_count_3)
  show ?thesis
    using a b invalid_index_noop [OF a b, of "embraco_starter_init boot_platform"
        "embraco_starter_init_p1 boot_platform" "\<lparr>active_ptr = 0, active_index = 0, locked = False\<rparr>"]
    by simp
qed

section \<open>What applying a mode leaves alone\<close>

lemma apply_mode_changes:
  "\<exists>a pr tt ot rm te lt lo pl.
     apply_mode s idx =
       s\<lparr>active := a, pwm_running := pr, tick_timer := tt, off_timer := ot, remaining_ms := rm,
         timeout_expired := te, led_timer := lt, led_on := lo, plat := pl\<rparr>"
proof (cases "unat idx < MODE_COUNT")
  case True
  show ?thesis
    unfolding apply_mode_eq [OF True] Let_def by blast
next
  case False
  then have "apply_mode s idx = s" by (simp add: apply_mode_def)
  moreover have
    "s = s\<lparr>active := active s, pwm_running := pwm_running s, tick_timer := tick_timer s,
          off_timer := off_timer s, remaining_ms := remaining_ms s,
          timeout_expired := timeout_expired s, led_timer := led_timer s, led_on := led_on s,
          plat := plat s\<rparr>"
    by simp
  ultimately show ?thesis by metis
qed

lemma apply_mode_p1_changes:
  "\<exists>a pr tt ot rm te lt lo pl.
     apply_mode_p1 s idx =
       s\<lparr>active := a, pwm_running := pr, tick_timer := tt, off_timer := ot, remaining_ms := rm,
         timeout_expired := te, led_timer := lt, led_on := lo, plat := pl\<rparr>"
proof (cases "unat idx < MODE_COUNT")
  case True
  show ?thesis
    unfolding apply_mode_p1_eq [OF True] Let_def by blast
next
  case False
  then have "apply_mode_p1 s idx = s" by (simp add: apply_mode_p1_def)
  moreover have
    "s = s\<lparr>active := active s, pwm_running := pwm_running s, tick_timer := tick_timer s,
          off_timer := off_timer s, remaining_ms := remaining_ms s,
          timeout_expired := timeout_expired s, led_timer := led_timer s, led_on := led_on s,
          plat := plat s\<rparr>"
    by simp
  ultimately show ?thesis by metis
qed

text \<open>
  C10. For every state and every index, \<open>apply_mode\<close> returns the state it was given
  with at most these fields rewritten: \<open>active\<close>, \<open>pwm_running\<close>, the tick and off timer
  handles, \<open>remaining_ms\<close>, \<open>timeout_expired\<close>, the LED timer handle, \<open>led_on\<close> and the
  hardware. So \<open>screen\<close>, \<open>cursor\<close>, \<open>first_visible\<close>, \<open>help_top_line\<close> and
  \<open>limit_runtime\<close> keep their values, in both variants, and in the inverter-select
  variant \<open>powered\<close> (and \<open>inverter\<close>) do too.
\<close>

theorem apply_mode_frame:
  "(\<exists>a pr tt ot rm te lt lo pl.
      apply_mode s idx =
        s\<lparr>active := a, pwm_running := pr, tick_timer := tt, off_timer := ot, remaining_ms := rm,
          timeout_expired := te, led_timer := lt, led_on := lo, plat := pl\<rparr>)
   \<and> screen (apply_mode s idx) = screen s
   \<and> cursor (apply_mode s idx) = cursor s
   \<and> first_visible (apply_mode s idx) = first_visible s
   \<and> help_top_line (apply_mode s idx) = help_top_line s
   \<and> limit_runtime (apply_mode s idx) = limit_runtime s
   \<and> hint_visible (apply_mode s idx) = hint_visible s
   \<and> (\<exists>a pr tt ot rm te lt lo pl.
        apply_mode_p1 s1 idx =
          s1\<lparr>active := a, pwm_running := pr, tick_timer := tt, off_timer := ot, remaining_ms := rm,
            timeout_expired := te, led_timer := lt, led_on := lo, plat := pl\<rparr>)
   \<and> screen (apply_mode_p1 s1 idx) = screen s1
   \<and> cursor (apply_mode_p1 s1 idx) = cursor s1
   \<and> first_visible (apply_mode_p1 s1 idx) = first_visible s1
   \<and> help_top_line (apply_mode_p1 s1 idx) = help_top_line s1
   \<and> limit_runtime (apply_mode_p1 s1 idx) = limit_runtime s1
   \<and> powered (apply_mode_p1 s1 idx) = powered s1
   \<and> inverter (apply_mode_p1 s1 idx) = inverter s1"
proof -
  obtain a pr tt ot rm te lt lo pl where e:
    "apply_mode s idx =
       s\<lparr>active := a, pwm_running := pr, tick_timer := tt, off_timer := ot, remaining_ms := rm,
         timeout_expired := te, led_timer := lt, led_on := lo, plat := pl\<rparr>"
    using apply_mode_changes [of s idx] by blast
  obtain a1 pr1 tt1 ot1 rm1 te1 lt1 lo1 pl1 where e1:
    "apply_mode_p1 s1 idx =
       s1\<lparr>active := a1, pwm_running := pr1, tick_timer := tt1, off_timer := ot1, remaining_ms := rm1,
          timeout_expired := te1, led_timer := lt1, led_on := lo1, plat := pl1\<rparr>"
    using apply_mode_p1_changes [of s1 idx] by blast
  have f: "screen (apply_mode s idx) = screen s" "cursor (apply_mode s idx) = cursor s"
    "first_visible (apply_mode s idx) = first_visible s"
    "help_top_line (apply_mode s idx) = help_top_line s"
    "limit_runtime (apply_mode s idx) = limit_runtime s"
    "hint_visible (apply_mode s idx) = hint_visible s"
    by (simp_all only: e) simp_all
  have f1: "screen (apply_mode_p1 s1 idx) = screen s1" "cursor (apply_mode_p1 s1 idx) = cursor s1"
    "first_visible (apply_mode_p1 s1 idx) = first_visible s1"
    "help_top_line (apply_mode_p1 s1 idx) = help_top_line s1"
    "limit_runtime (apply_mode_p1 s1 idx) = limit_runtime s1"
    "powered (apply_mode_p1 s1 idx) = powered s1"
    "inverter (apply_mode_p1 s1 idx) = inverter s1"
    by (simp_all only: e1) simp_all
  from apply_mode_changes [of s idx] apply_mode_p1_changes [of s1 idx] f f1
  show ?thesis by (intro conjI) assumption+
qed

end
